theory Spec2Isabelle
  imports Complex_Main "HOL-Library.Log_Nat"
begin

section \<open>The torrent path reconciliation engine of qbittorrent-migrator\<close>

text \<open>
  The functions \<open>findCorrectTorrentPath\<close>, \<open>getExpectedFiles\<close>, \<open>validateSingleFile\<close>
  and \<open>validateMultiFileStructure\<close> of the migrator script, as HOL functions.

  Conventions of the embedding.
  \<^item> A JavaScript \<open>number\<close> that holds a byte count or a counter is its integer value:
    sizes declared by the torrent are \<open>int\<close> (a bencoded integer may be any integer), sizes
    reported by the file system and loop counters are \<open>nat\<close>. An integer that is not a
    double (none below \<open>2^53\<close>) is no input of the program.
  \<^item> Any other \<open>number\<close> is the rational value of a finite IEEE 754 binary64 double. Each
    \<open>/\<close>, \<open>*\<close> and \<open>+\<close> of the source is the exact operation followed by the rounding
    \<open>double\<close> (to nearest, ties to even), and a decimal literal \<open>0.7\<close> is \<open>double (7 / 10)\<close>.
    No operation of the program leaves the range of the doubles on sizes that are doubles:
    every quotient is at most its numerator, and every other result is at most \<open>1.1\<close>.
  \<^item> The file system is a fixed snapshot: a partial function from paths to the metadata
    \<open>fs.statSync\<close> reports. \<open>fs.statSync\<close> throws where the snapshot has no entry,
    \<open>fs.existsSync\<close> is false exactly there.
  \<^item> \<open>path.join\<close> of Node's library is a parameter \<open>pjoin\<close> of every function that
    calls it.
  \<^item> The mutable \<open>debug: string[]\<close> log is passed in and returned. A log line is a
    value of \<open>debugMsg\<close>: one constructor per template literal of the source, carrying
    the values the template interpolates.
  \<^item> An exception is a value of \<open>error\<close>; a function that can throw returns
    \<open>error + _\<close>, with \<open>Inl\<close> for the exception.
\<close>

subsection \<open>Data\<close>

text \<open>\<open>interface TorrentFile\<close> and \<open>interface TorrentData\<close>. The fields \<open>'piece length'\<close> and
  \<open>pieces\<close> are never read by the functions modelled here and are left out. An optional
  field (\<open>files?\<close>, \<open>length?\<close>) is an \<open>option\<close>.\<close>

record TorrentFile =
  length_tf :: int
  path_tf :: "string list"

record TorrentInfo =
  name :: string
  files :: "TorrentFile list option"
  length_info :: "int option"

record TorrentData =
  info :: TorrentInfo

text \<open>The element type \<open>{ path: string; size: number }\<close> of the expected-file list.\<close>

record ExpectedFile =
  path_ef :: string
  size_ef :: int

record FileMatch =
  expectedPath :: string
  actualPath :: string
  exists :: bool
  expectedSize :: int
  actualSize :: int
  sizeMatch :: bool

datatype error = StatError | TypeError

text \<open>One line of the \<open>debug\<close> log.\<close>

datatype debugMsg =
    StartingAnalysis nat
  | TorrentNameMsg string
  | IsSingleFileMsg bool
  | ExpectedFilesCount nat
  | ExpectedFileMsg nat string int
  | TestingPath nat string
  | PathDoesNotExist
  | PathExists bool bool
  | CheckingSingleFile
  | CheckingForFileAt string
  | FileNotFound
  | NotADirectory
  | TestingMultiFile string string
  | FoundCandidate rat
  | ValidatingSingleFile string
  | FileExistsSizes int int
  | PerfectSizeMatch rat
  | IncompleteFile rat rat
  | SizeMismatch rat
  | ErrorValidatingSingleFile error
  | ValidatingMultiFile string
  | BasePathDoesNotExist
  | BasePathNotDirectory
  | CheckingFirst nat nat
  | CheckingFile string string
  | FileExistsMatch int int bool
  | FileDoesNotExist
  | ResultsMsg nat nat nat
  | CalculatedConfidence rat rat rat

record PathMatchResult =
  basePath :: string
  confidence :: rat
  matches :: "FileMatch list"
  totalFiles :: nat
  existingFiles :: nat
  debug :: "debugMsg list"

subsection \<open>The file system and the library functions\<close>

text \<open>What \<open>fs.statSync\<close> reports of a path: the kind of the entry (\<open>isFile()\<close> and
  \<open>isDirectory()\<close> read it) and \<open>size\<close>.\<close>

datatype fileType = RegularFile | Directory | OtherType

record Stats =
  ftype :: fileType
  size_st :: nat

type_synonym filesystem = "string \<Rightarrow> Stats option"

definition isFile :: "Stats \<Rightarrow> bool" where
  "isFile st = (ftype st = RegularFile)"

definition isDirectory :: "Stats \<Rightarrow> bool" where
  "isDirectory st = (ftype st = Directory)"

definition existsSync :: "filesystem \<Rightarrow> string \<Rightarrow> bool" where
  "existsSync fs p = (case fs p of None \<Rightarrow> False | Some st \<Rightarrow> True)"

definition statSync :: "filesystem \<Rightarrow> string \<Rightarrow> error + Stats" where
  "statSync fs p = (case fs p of None \<Rightarrow> Inl StatError | Some st \<Rightarrow> Inr st)"

subsection \<open>Numbers\<close>

text \<open>For \<open>x > 0\<close>, \<open>ilog2 x\<close> is the integer \<open>e\<close> with \<open>2^e \<le> x < 2^(e+1)\<close>: the numerator and
  the denominator of \<open>x\<close> have \<open>bitlen\<close> binary digits each, which fixes \<open>e\<close> up to one.\<close>

definition ilog2 :: "rat \<Rightarrow> int" where
  "ilog2 x =
     (let (p, q) = quotient_of x;
          d = bitlen p - bitlen q
      in if 2 powi d \<le> x then d else d - 1)"

text \<open>The binary exponent of a double near \<open>x\<close>, which is at least that of the smallest
  normal number, and the distance between neighbouring doubles there: a double has 53
  significant binary digits.\<close>

definition bexp :: "rat \<Rightarrow> int" where
  "bexp x = max (ilog2 x) (- 1022)"

definition ulp :: "rat \<Rightarrow> rat" where
  "ulp x = 2 powi (bexp x - 52)"

text \<open>The nearest integer, the even one of two nearest.\<close>

definition roundTiesToEven :: "rat \<Rightarrow> int" where
  "roundTiesToEven q =
     (let f = \<lfloor>q\<rfloor>; r = q - of_int f
      in if r < 1 / 2 then f
         else if 1 / 2 < r then f + 1
         else if even f then f else f + 1)"

text \<open>The double nearest to \<open>x\<close>: the multiple of \<open>ulp x\<close> nearest to it.\<close>

definition double :: "rat \<Rightarrow> rat" where
  "double x =
     (if x = 0 then 0
      else if 0 < x then of_int (roundTiesToEven (x / ulp x)) * ulp x
      else - (of_int (roundTiesToEven (- x / ulp (- x))) * ulp (- x)))"

text \<open>\<open>Array.prototype.join\<close> on an array of strings.\<close>

fun array_join :: "string list \<Rightarrow> string \<Rightarrow> string" where
  "array_join [] sep = []"
| "array_join [s] sep = s"
| "array_join (s # t # ss) sep = s @ sep @ array_join (t # ss) sep"

text \<open>\<open>Array.prototype.reduce\<close> without an initial value: a \<open>TypeError\<close> on the empty
  array, otherwise the first element is the initial accumulator.\<close>

fun reduce :: "('a \<Rightarrow> 'a \<Rightarrow> 'a) \<Rightarrow> 'a list \<Rightarrow> error + 'a" where
  "reduce f [] = Inl TypeError"
| "reduce f (x # xs) = Inr (foldl f x xs)"

subsection \<open>\<open>getExpectedFiles\<close>\<close>

text \<open>The \<open>for (const file of torrentData.info.files)\<close> loop, pushing one entry per
  file onto \<open>files\<close>.\<close>

fun pushFiles :: "TorrentFile list \<Rightarrow> ExpectedFile list \<Rightarrow> ExpectedFile list" where
  "pushFiles [] acc = acc"
| "pushFiles (file # rest) acc =
     pushFiles rest (acc @ [\<lparr>path_ef = array_join (path_tf file) ''/'', size_ef = length_tf file\<rparr>])"

text \<open>\<open>torrentData.info.length || 0\<close>: \<open>0\<close> when the field is absent; a present \<open>0\<close> is
  falsy as well and gives \<open>0\<close>.\<close>

definition getExpectedFiles :: "TorrentData \<Rightarrow> ExpectedFile list" where
  "getExpectedFiles torrentData =
     (case files (info torrentData) of
        Some fls \<Rightarrow> pushFiles fls []
      | None \<Rightarrow>
          [\<lparr>path_ef = name (info torrentData),
            size_ef = (case length_info (info torrentData) of
                         None \<Rightarrow> 0
                       | Some n \<Rightarrow> if n = 0 then 0 else n)\<rparr>])"

subsection \<open>\<open>validateSingleFile\<close>\<close>

text \<open>The result \<open>{ confidence, match } | null\<close> is an optional pair. The \<open>try\<close> block can
  throw only in \<open>fs.statSync\<close>, its second statement; the \<open>catch\<close> logs and returns \<open>null\<close>.\<close>

definition validateSingleFile ::
  "filesystem \<Rightarrow> string \<Rightarrow> ExpectedFile \<Rightarrow> debugMsg list
     \<Rightarrow> (rat \<times> FileMatch) option \<times> debugMsg list" where
  "validateSingleFile fs filePath expectedFile dbg =
     (let dbg1 = dbg @ [ValidatingSingleFile filePath] in
      case statSync fs filePath of
        Inl err \<Rightarrow> (None, dbg1 @ [ErrorValidatingSingleFile err])
      | Inr stat \<Rightarrow>
          (let actualSz = int (size_st stat);
               expectedSz = size_ef expectedFile;
               dbg2 = dbg1 @ [FileExistsSizes expectedSz actualSz];
               match = \<lparr>expectedPath = path_ef expectedFile, actualPath = filePath,
                        exists = True, expectedSize = expectedSz, actualSize = actualSz,
                        sizeMatch = (actualSz = expectedSz)\<rparr>
           in if sizeMatch match then
                (Some (1, match), dbg2 @ [PerfectSizeMatch 1])
              else if actualSz < expectedSz \<and> actualSz > 0 then
                (let completionRatio = double (of_int actualSz / of_int expectedSz);
                     conf = double (double (5 / 10) + double (completionRatio * double (3 / 10)))
                 in (Some (conf, match), dbg2 @ [IncompleteFile completionRatio conf]))
              else
                (Some (double (2 / 10), match), dbg2 @ [SizeMismatch (double (2 / 10))])))"

subsection \<open>\<open>validateMultiFileStructure\<close>\<close>

text \<open>The local variables the \<open>for\<close> loop over \<open>expectedFiles\<close> updates.\<close>

record scan =
  matches_l :: "FileMatch list"
  existingFiles_l :: nat
  perfectMatches_l :: nat
  debug_l :: "debugMsg list"

text \<open>The body of the loop at index \<open>i\<close>. The \<open>try\<close> block can throw only in
  \<open>fs.statSync\<close>, its first statement, so the \<open>catch\<close> block runs on the state the
  iteration started with (after the first log line).\<close>

definition checkFile ::
  "filesystem \<Rightarrow> (string \<Rightarrow> string \<Rightarrow> string) \<Rightarrow> string \<Rightarrow> nat \<Rightarrow> ExpectedFile \<Rightarrow> scan \<Rightarrow> scan" where
  "checkFile fs pjoin base i expectedFile s =
     (let fullPath = pjoin base (path_ef expectedFile);
          dbg1 = (if i < 5 then debug_l s @ [CheckingFile (path_ef expectedFile) fullPath]
                  else debug_l s)
      in case statSync fs fullPath of
           Inr stat \<Rightarrow>
             (let actualSz = int (size_st stat);
                  szMatch = (actualSz = size_ef expectedFile)
              in \<lparr>matches_l = matches_l s @
                     [\<lparr>expectedPath = path_ef expectedFile, actualPath = fullPath,
                       exists = True, expectedSize = size_ef expectedFile,
                       actualSize = actualSz, sizeMatch = szMatch\<rparr>],
                   existingFiles_l = existingFiles_l s + 1,
                   perfectMatches_l = (if szMatch then perfectMatches_l s + 1
                                       else perfectMatches_l s),
                   debug_l = (if i < 5
                              then dbg1 @ [FileExistsMatch (size_ef expectedFile) actualSz szMatch]
                              else dbg1)\<rparr>)
         | Inl err \<Rightarrow>
             \<lparr>matches_l = matches_l s @
                  [\<lparr>expectedPath = path_ef expectedFile, actualPath = fullPath,
                    exists = False, expectedSize = size_ef expectedFile,
                    actualSize = 0, sizeMatch = False\<rparr>],
               existingFiles_l = existingFiles_l s,
               perfectMatches_l = perfectMatches_l s,
               debug_l = (if i < 5 then dbg1 @ [FileDoesNotExist] else dbg1)\<rparr>)"

text \<open>\<open>for (let i = 0; i < expectedFiles.length; i++)\<close>: the entries still to visit and
  the index of the first of them.\<close>

fun checkFiles ::
  "filesystem \<Rightarrow> (string \<Rightarrow> string \<Rightarrow> string) \<Rightarrow> string \<Rightarrow> ExpectedFile list \<Rightarrow> nat \<Rightarrow> scan \<Rightarrow> scan" where
  "checkFiles fs pjoin base [] i s = s"
| "checkFiles fs pjoin base (expectedFile # rest) i s =
     checkFiles fs pjoin base rest (Suc i) (checkFile fs pjoin base i expectedFile s)"

text \<open>The score computed from the counters after the loop. Where \<open>totalFiles\<close> is \<open>0\<close>
  JavaScript's \<open>0 / 0\<close> is \<open>NaN\<close> and HOL's is \<open>0\<close>; then \<open>existingFiles\<close> is \<open>0\<close> too, and
  \<open>existenceRatio\<close> is read only under \<open>existingFiles > 0\<close> (and by the log line).\<close>

definition existenceRatio :: "nat \<Rightarrow> nat \<Rightarrow> rat" where
  "existenceRatio existingFls totalFls = double (of_nat existingFls / of_nat totalFls)"

definition perfectMatchRatio :: "nat \<Rightarrow> nat \<Rightarrow> rat" where
  "perfectMatchRatio perfectMs existingFls =
     (if existingFls > 0 then double (of_nat perfectMs / of_nat existingFls) else 0)"

definition multiFileConfidence :: "nat \<Rightarrow> nat \<Rightarrow> nat \<Rightarrow> rat" where
  "multiFileConfidence totalFls existingFls perfectMs =
     (if existingFls > 0 then
        (let c1 = double (double (existenceRatio existingFls totalFls * double (7 / 10))
                    + double (perfectMatchRatio perfectMs existingFls * double (3 / 10)));
             c2 = (if existenceRatio existingFls totalFls > double (8 / 10)
                   then double (c1 + double (1 / 10)) else c1);
             c3 = (if existenceRatio existingFls totalFls > double (5 / 10)
                   then max c2 (double (6 / 10)) else c2)
         in c3)
      else 0)"

text \<open>\<open>fs.statSync(basePath)\<close> in the second guard is outside any \<open>try\<close>: its exception
  would leave the function.\<close>

definition validateMultiFileStructure ::
  "filesystem \<Rightarrow> (string \<Rightarrow> string \<Rightarrow> string) \<Rightarrow> string \<Rightarrow> ExpectedFile list \<Rightarrow> debugMsg list
     \<Rightarrow> error + (PathMatchResult option \<times> debugMsg list)" where
  "validateMultiFileStructure fs pjoin base expectedFiles dbg =
     (let dbg1 = dbg @ [ValidatingMultiFile base] in
      if \<not> existsSync fs base then Inr (None, dbg1 @ [BasePathDoesNotExist])
      else
        case statSync fs base of
          Inl err \<Rightarrow> Inl err
        | Inr stat \<Rightarrow>
            if \<not> isDirectory stat then Inr (None, dbg1 @ [BasePathNotDirectory])
            else
              (let filesToCheck = min (length expectedFiles) 10;
                   dbg2 = dbg1 @ [CheckingFirst filesToCheck (length expectedFiles)];
                   s = checkFiles fs pjoin base expectedFiles 0
                         \<lparr>matches_l = [], existingFiles_l = 0, perfectMatches_l = 0,
                          debug_l = dbg2\<rparr>;
                   dbg3 = debug_l s @
                            [ResultsMsg (existingFiles_l s) (length expectedFiles)
                               (perfectMatches_l s)];
                   totalFls = length expectedFiles;
                   conf = multiFileConfidence totalFls (existingFiles_l s) (perfectMatches_l s);
                   dbg4 = dbg3 @
                            [CalculatedConfidence conf
                               (existenceRatio (existingFiles_l s) totalFls)
                               (perfectMatchRatio (perfectMatches_l s) (existingFiles_l s))]
               in Inr (Some \<lparr>basePath = base, confidence = conf, matches = matches_l s,
                              totalFiles = totalFls, existingFiles = existingFiles_l s,
                              debug = []\<rparr>,
                       dbg4)))"

subsection \<open>\<open>findCorrectTorrentPath\<close>\<close>

text \<open>The state of the loop over \<open>filePaths\<close>: the \<open>candidates\<close> array and the \<open>debug\<close> log.\<close>

type_synonym search = "PathMatchResult list \<times> debugMsg list"

text \<open>\<open>if (result) { candidates.push({...}) }\<close> after a call of \<open>validateSingleFile\<close>;
  \<open>debug: [...debug]\<close> is a copy of the log at that moment.\<close>

definition pushSingleFile ::
  "string \<Rightarrow> PathMatchResult list \<Rightarrow> (rat \<times> FileMatch) option \<times> debugMsg list \<Rightarrow> search" where
  "pushSingleFile base candidates r =
     (case r of
        (None, dbg) \<Rightarrow> (candidates, dbg)
      | (Some (conf, match), dbg) \<Rightarrow>
          (candidates @
             [\<lparr>basePath = base, confidence = conf, matches = [match], totalFiles = 1,
               existingFiles = (if exists match then 1 else 0), debug = dbg\<rparr>],
           dbg))"

text \<open>The call \<open>validateSingleFile(filePath, expectedFiles[0], debug)\<close>. On an empty array
  \<open>expectedFiles[0]\<close> is \<open>undefined\<close>: inside its \<open>try\<close> block \<open>validateSingleFile\<close> then
  throws in \<open>fs.statSync\<close> or, if that succeeds, a \<open>TypeError\<close> in \<open>expectedFile.size\<close>, and
  its \<open>catch\<close> logs the error and returns \<open>null\<close>.\<close>

definition validateFirst ::
  "filesystem \<Rightarrow> string \<Rightarrow> ExpectedFile list \<Rightarrow> debugMsg list
     \<Rightarrow> (rat \<times> FileMatch) option \<times> debugMsg list" where
  "validateFirst fs filePath expectedFiles dbg =
     (case expectedFiles of
        expectedFile # _ \<Rightarrow> validateSingleFile fs filePath expectedFile dbg
      | [] \<Rightarrow>
          (None,
           dbg @ [ValidatingSingleFile filePath,
                  ErrorValidatingSingleFile
                    (case statSync fs filePath of Inl err \<Rightarrow> err | Inr stat \<Rightarrow> TypeError)]))"

text \<open>The single-file branch of the loop body, up to its \<open>continue\<close>.\<close>

definition testSingleFile ::
  "filesystem \<Rightarrow> (string \<Rightarrow> string \<Rightarrow> string) \<Rightarrow> string \<Rightarrow> ExpectedFile list \<Rightarrow> string
     \<Rightarrow> Stats \<Rightarrow> search \<Rightarrow> search" where
  "testSingleFile fs pjoin torrentName expectedFiles base stat a =
     (let (candidates, dbg) = a;
          dbg1 = dbg @ [CheckingSingleFile];
          (candidates2, dbg2) =
            (if isFile stat
             then pushSingleFile base candidates (validateFirst fs base expectedFiles dbg1)
             else (candidates, dbg1))
      in if isDirectory stat then
           (let filePath = pjoin base torrentName;
                dbg3 = dbg2 @ [CheckingForFileAt filePath]
            in if existsSync fs filePath
               then pushSingleFile base candidates2
                      (validateFirst fs filePath expectedFiles dbg3)
               else (candidates2, dbg3 @ [FileNotFound]))
         else (candidates2, dbg2))"

text \<open>\<open>for (const { testPath, description } of pathsToTest)\<close>. A result is pushed only
  under \<open>result && result.confidence > 0\<close>, as \<open>{...result, basePath, debug: [...debug]}\<close>.\<close>

fun testStructures ::
  "filesystem \<Rightarrow> (string \<Rightarrow> string \<Rightarrow> string) \<Rightarrow> ExpectedFile list \<Rightarrow> string
     \<Rightarrow> (string \<times> string) list \<Rightarrow> search \<Rightarrow> error + search" where
  "testStructures fs pjoin expectedFiles base [] a = Inr a"
| "testStructures fs pjoin expectedFiles base ((testPath, description) # rest) a =
     (let (candidates, dbg) = a in
      case validateMultiFileStructure fs pjoin testPath expectedFiles
             (dbg @ [TestingMultiFile description testPath]) of
        Inl err \<Rightarrow> Inl err
      | Inr (None, dbg1) \<Rightarrow> testStructures fs pjoin expectedFiles base rest (candidates, dbg1)
      | Inr (Some result, dbg1) \<Rightarrow>
          if confidence result > 0 then
            (let dbg2 = dbg1 @ [FoundCandidate (confidence result)]
             in testStructures fs pjoin expectedFiles base rest
                  (candidates @ [result\<lparr>basePath := base, debug := dbg2\<rparr>], dbg2))
          else testStructures fs pjoin expectedFiles base rest (candidates, dbg1))"

text \<open>The body of the loop over \<open>filePaths\<close> at index \<open>i\<close>. \<open>fs.statSync(basePath)\<close> is
  outside any \<open>try\<close>.\<close>

definition testBasePath ::
  "filesystem \<Rightarrow> (string \<Rightarrow> string \<Rightarrow> string) \<Rightarrow> string \<Rightarrow> bool \<Rightarrow> ExpectedFile list
     \<Rightarrow> nat \<Rightarrow> string \<Rightarrow> search \<Rightarrow> error + search" where
  "testBasePath fs pjoin torrentName isSingleFile expectedFiles i base a =
     (let (candidates, dbg) = a;
          dbg1 = dbg @ [TestingPath (i + 1) base]
      in if \<not> existsSync fs base then Inr (candidates, dbg1 @ [PathDoesNotExist])
         else
           case statSync fs base of
             Inl err \<Rightarrow> Inl err
           | Inr stat \<Rightarrow>
               (let dbg2 = dbg1 @ [PathExists (isDirectory stat) (isFile stat)]
                in if isSingleFile then
                     Inr (testSingleFile fs pjoin torrentName expectedFiles base stat
                            (candidates, dbg2))
                   else if \<not> isDirectory stat then Inr (candidates, dbg2 @ [NotADirectory])
                   else
                     (let pathsToTest =
                            [(pjoin base torrentName, ''with torrent name folder''),
                             (base, ''direct in base path'')]
                      in testStructures fs pjoin expectedFiles base pathsToTest
                           (candidates, dbg2))))"

text \<open>\<open>for (let i = 0; i < filePaths.length; i++)\<close>.\<close>

fun testPaths ::
  "filesystem \<Rightarrow> (string \<Rightarrow> string \<Rightarrow> string) \<Rightarrow> string \<Rightarrow> bool \<Rightarrow> ExpectedFile list
     \<Rightarrow> string list \<Rightarrow> nat \<Rightarrow> search \<Rightarrow> error + search" where
  "testPaths fs pjoin torrentName isSingleFile expectedFiles [] i a = Inr a"
| "testPaths fs pjoin torrentName isSingleFile expectedFiles (base # rest) i a =
     (case testBasePath fs pjoin torrentName isSingleFile expectedFiles i base a of
        Inl err \<Rightarrow> Inl err
      | Inr a' \<Rightarrow> testPaths fs pjoin torrentName isSingleFile expectedFiles rest (Suc i) a')"

text \<open>The callback of \<open>candidates.reduce\<close>.\<close>

definition better :: "PathMatchResult \<Rightarrow> PathMatchResult \<Rightarrow> PathMatchResult" where
  "better best current = (if confidence current > confidence best then current else best)"

text \<open>The log lines before the loop; \<open>expectedFiles.slice(0, 3).forEach((file, i) => ...)\<close>
  logs the first three entries with their indices.\<close>

definition initialDebug :: "string \<Rightarrow> bool \<Rightarrow> ExpectedFile list \<Rightarrow> nat \<Rightarrow> debugMsg list" where
  "initialDebug torrentName isSingleFile expectedFiles n =
     [StartingAnalysis n, TorrentNameMsg torrentName, IsSingleFileMsg isSingleFile,
      ExpectedFilesCount (length expectedFiles)] @
     map (\<lambda>(i, file). ExpectedFileMsg i (path_ef file) (size_ef file))
       (enumerate 0 (take 3 expectedFiles))"

text \<open>The function returns \<open>Promise.resolve(best)\<close>; it is not \<open>async\<close>, so an exception
  is thrown to the caller. The lines logged after the loop go to the local \<open>debug\<close> array,
  which is dropped on return, and are left out: every candidate holds its own earlier copy
  of the log.\<close>

definition findCorrectTorrentPath ::
  "filesystem \<Rightarrow> (string \<Rightarrow> string \<Rightarrow> string) \<Rightarrow> TorrentData \<Rightarrow> string list
     \<Rightarrow> error + PathMatchResult" where
  "findCorrectTorrentPath fs pjoin torrentData filePaths =
     (let torrentName = name (info torrentData);
          isSingleFile = (case files (info torrentData) of None \<Rightarrow> True | Some fls \<Rightarrow> False);
          expectedFiles = getExpectedFiles torrentData;
          dbg = initialDebug torrentName isSingleFile expectedFiles (length filePaths)
      in case testPaths fs pjoin torrentName isSingleFile expectedFiles filePaths 0 ([], dbg) of
           Inl err \<Rightarrow> Inl err
         | Inr (candidates, dbg') \<Rightarrow> reduce better candidates)"

section \<open>Notions used in the statements\<close>

text \<open>These definitions are not part of the program. They name what the statements
  below say about it.\<close>

subsection \<open>The evidence for one manifest entry\<close>

text \<open>An entry under a root is \<open>readable\<close> when the snapshot has metadata for the joined
  path, and \<open>perfect\<close> when, moreover, the size found there is the size expected. The
  \<open>evidence\<close> for the entry is the record the validator is to produce for it.\<close>

definition readable :: "filesystem \<Rightarrow> (string \<Rightarrow> string \<Rightarrow> string) \<Rightarrow> string \<Rightarrow> ExpectedFile \<Rightarrow> bool" where
  "readable fs pjoin base e =
     (case fs (pjoin base (path_ef e)) of None \<Rightarrow> False | Some st \<Rightarrow> True)"

definition perfect :: "filesystem \<Rightarrow> (string \<Rightarrow> string \<Rightarrow> string) \<Rightarrow> string \<Rightarrow> ExpectedFile \<Rightarrow> bool" where
  "perfect fs pjoin base e =
     (case fs (pjoin base (path_ef e)) of
        None \<Rightarrow> False
      | Some st \<Rightarrow> int (size_st st) = size_ef e)"

definition evidence :: "filesystem \<Rightarrow> (string \<Rightarrow> string \<Rightarrow> string) \<Rightarrow> string \<Rightarrow> ExpectedFile \<Rightarrow> FileMatch" where
  "evidence fs pjoin base e =
     (case fs (pjoin base (path_ef e)) of
        None \<Rightarrow>
          \<lparr>expectedPath = path_ef e, actualPath = pjoin base (path_ef e), exists = False,
           expectedSize = size_ef e, actualSize = 0, sizeMatch = False\<rparr>
      | Some st \<Rightarrow>
          \<lparr>expectedPath = path_ef e, actualPath = pjoin base (path_ef e), exists = True,
           expectedSize = size_ef e, actualSize = int (size_st st),
           sizeMatch = (int (size_st st) = size_ef e)\<rparr>)"

subsection \<open>The single-file score as a function of the two sizes\<close>

definition singleFileConfidence :: "int \<Rightarrow> int \<Rightarrow> rat" where
  "singleFileConfidence actualSz expectedSz =
     (if actualSz = expectedSz then 1
      else if 0 < actualSz \<and> actualSz < expectedSz
        then double (double (5 / 10)
               + double (double (of_int actualSz / of_int expectedSz) * double (3 / 10)))
      else double (2 / 10))"

subsection \<open>The hypotheses a run has tested\<close>

text \<open>Each validator logs its path argument first of all, so the \<open>ValidatingSingleFile\<close>
  and \<open>ValidatingMultiFile\<close> lines of a log are the validator calls made, in call order.\<close>

fun isValidation :: "debugMsg \<Rightarrow> bool" where
  "isValidation (ValidatingSingleFile p) = True"
| "isValidation (ValidatingMultiFile p) = True"
| "isValidation m = False"

definition validations :: "debugMsg list \<Rightarrow> debugMsg list" where
  "validations dbg = filter isValidation dbg"

subsection \<open>The first maximum of a candidate list\<close>

definition firstMaxAt :: "PathMatchResult list \<Rightarrow> nat \<Rightarrow> bool" where
  "firstMaxAt cs k =
     (k < length cs \<and>
      (\<forall>j < length cs. confidence (cs ! j) \<le> confidence (cs ! k)) \<and>
      (\<forall>j < k. confidence (cs ! j) < confidence (cs ! k)))"

subsection \<open>Growth of the candidate list\<close>

text \<open>A candidate is \<open>inRange\<close> when its confidence is positive and at most the double
  \<open>1.1\<close>. The list \<open>cands'\<close> \<open>extends\<close> \<open>cands\<close> when it is \<open>cands\<close> followed by candidates in
  range.\<close>

definition inRange :: "PathMatchResult \<Rightarrow> bool" where
  "inRange c = (0 < confidence c \<and> confidence c \<le> double (11 / 10))"

definition extends :: "PathMatchResult list \<Rightarrow> PathMatchResult list \<Rightarrow> bool" where
  "extends cands cands' = (\<exists>new. cands' = cands @ new \<and> list_all inRange new)"

subsection \<open>The candidates in evaluation order\<close>

text \<open>A candidate without its copy of the log.\<close>

definition strip :: "PathMatchResult \<Rightarrow> PathMatchResult" where
  "strip c = c\<lparr>debug := []\<rparr>"

text \<open>The candidate a single-file hypothesis yields: the result of \<open>validateSingleFile\<close> on
  the path tested, with the first expected file, if there is a result. The candidate a
  multi-file hypothesis yields: the result of \<open>validateMultiFileStructure\<close> on the root
  tested, with all expected files, if there is a result and its confidence is positive.
  Both carry the base path they were found for.\<close>

definition singleCandidate ::
  "filesystem \<Rightarrow> ExpectedFile list \<Rightarrow> string \<Rightarrow> string \<Rightarrow> PathMatchResult list" where
  "singleCandidate fs efs base filePath =
     (case efs of
        [] \<Rightarrow> []
      | ef # _ \<Rightarrow>
          (case fst (validateSingleFile fs filePath ef []) of
             None \<Rightarrow> []
           | Some (conf, match) \<Rightarrow>
               [\<lparr>basePath = base, confidence = conf, matches = [match], totalFiles = 1,
                 existingFiles = (if exists match then 1 else 0), debug = []\<rparr>]))"

definition multiCandidate ::
  "filesystem \<Rightarrow> (string \<Rightarrow> string \<Rightarrow> string) \<Rightarrow> ExpectedFile list \<Rightarrow> string \<Rightarrow> string
     \<Rightarrow> PathMatchResult list" where
  "multiCandidate fs pjoin efs base rt =
     (case validateMultiFileStructure fs pjoin rt efs [] of
        Inl err \<Rightarrow> []
      | Inr (None, dbg) \<Rightarrow> []
      | Inr (Some result, dbg) \<Rightarrow>
          if confidence result > 0 then [result\<lparr>basePath := base\<rparr>] else [])"

text \<open>The candidates of one base path, hypothesis by hypothesis. In single-file mode: the
  path itself if it is a regular file, then the file named after the torrent in it if it
  is a directory. In multi-file mode, for a directory: the root named after the torrent
  in it, then the directory itself. The candidates of a run are those of its base paths,
  one base path after the other.\<close>

definition candidatesFor ::
  "filesystem \<Rightarrow> (string \<Rightarrow> string \<Rightarrow> string) \<Rightarrow> string \<Rightarrow> bool \<Rightarrow> ExpectedFile list \<Rightarrow> string
     \<Rightarrow> PathMatchResult list" where
  "candidatesFor fs pjoin nm isSingle efs base =
     (case fs base of
        None \<Rightarrow> []
      | Some st \<Rightarrow>
          if isSingle then
            (if isFile st then singleCandidate fs efs base base else []) @
            (if isDirectory st then singleCandidate fs efs base (pjoin base nm) else [])
          else if isDirectory st then
            multiCandidate fs pjoin efs base (pjoin base nm) @ multiCandidate fs pjoin efs base base
          else [])"

subsection \<open>Concrete inputs\<close>

text \<open>A small file system: the directory \<open>/d\<close> holding the files \<open>a\<close>, \<open>movie\<close> and \<open>f6\<close>, the
  empty directories \<open>/e\<close> and \<open>/g\<close>, the directory \<open>/h\<close> holding a second \<open>movie\<close>, and the
  files \<open>/f\<close> and \<open>/t\<close>. On these paths \<open>path.join\<close> puts a
  \<open>/\<close> between its arguments.\<close>

definition exJoin :: "string \<Rightarrow> string \<Rightarrow> string" where
  "exJoin a b = a @ ''/'' @ b"

definition exFs :: filesystem where
  "exFs p =
     (if p = ''/d'' then Some \<lparr>ftype = Directory, size_st = 4096\<rparr>
      else if p = ''/d/a'' then Some \<lparr>ftype = RegularFile, size_st = 10\<rparr>
      else if p = ''/d/movie'' then Some \<lparr>ftype = RegularFile, size_st = 1000\<rparr>
      else if p = ''/d/f6'' then Some \<lparr>ftype = RegularFile, size_st = 6\<rparr>
      else if p = ''/f'' then Some \<lparr>ftype = RegularFile, size_st = 400\<rparr>
      else if p = ''/t'' then Some \<lparr>ftype = RegularFile, size_st = 10\<rparr>
      else if p = ''/e'' then Some \<lparr>ftype = Directory, size_st = 4096\<rparr>
      else if p = ''/g'' then Some \<lparr>ftype = Directory, size_st = 4096\<rparr>
      else if p = ''/h'' then Some \<lparr>ftype = Directory, size_st = 4096\<rparr>
      else if p = ''/h/movie'' then Some \<lparr>ftype = RegularFile, size_st = 1000\<rparr>
      else None)"

text \<open>A multi-file torrent \<open>T\<close> with the one file \<open>a\<close> of 10 bytes, and a single-file
  torrent \<open>movie\<close> of 1000 bytes.\<close>

definition exMulti :: TorrentData where
  "exMulti = \<lparr>info = \<lparr>name = ''T'',
                       files = Some [\<lparr>length_tf = 10, path_tf = [''a'']\<rparr>],
                       length_info = None\<rparr>\<rparr>"

definition exSingle :: TorrentData where
  "exSingle = \<lparr>info = \<lparr>name = ''movie'', files = None, length_info = Some 1000\<rparr>\<rparr>"

text \<open>Six expected files of which only the last is present under \<open>/d\<close>.\<close>

definition exSix :: "ExpectedFile list" where
  "exSix = [\<lparr>path_ef = ''f1'', size_ef = 1\<rparr>, \<lparr>path_ef = ''f2'', size_ef = 2\<rparr>,
            \<lparr>path_ef = ''f3'', size_ef = 3\<rparr>, \<lparr>path_ef = ''f4'', size_ef = 4\<rparr>,
            \<lparr>path_ef = ''f5'', size_ef = 5\<rparr>, \<lparr>path_ef = ''f6'', size_ef = 6\<rparr>]"

text \<open>Four candidates, two of them with the greatest confidence.\<close>

definition exCand :: "string \<Rightarrow> rat \<Rightarrow> PathMatchResult" where
  "exCand b c = \<lparr>basePath = b, confidence = c, matches = [], totalFiles = 1,
                 existingFiles = 1, debug = []\<rparr>"

definition exCands :: "PathMatchResult list" where
  "exCands = [exCand ''/p1'' (13 / 20), exCand ''/p2'' 1, exCand ''/p3'' (2 / 10), exCand ''/p4'' 1]"

section \<open>Lemmas about the model\<close>

subsection \<open>Rounding to a double\<close>

text \<open>The exponent \<open>ilog2\<close> is the one of the binade, and grows with its argument.\<close>

lemma int_pow_bounds_rat:
  assumes "0 < (p :: int)"
  shows "2 powi (bitlen p - 1) \<le> (of_int p :: rat) \<and> (of_int p :: rat) < 2 powi (bitlen p)"
proof -
  from bitlen_bounds [OF assms]
  have lo: "2 ^ nat (bitlen p - 1) \<le> p" and hi: "p < 2 ^ nat (bitlen p)" by simp_all
  have b1: "1 \<le> bitlen p" using assms bitlen_eq_zero_iff [of p] bitlen_nonneg [of p] by linarith
  from lo have "(of_int (2 ^ nat (bitlen p - 1)) :: rat) \<le> of_int p"
    by (simp only: of_int_le_iff)
  then have l: "2 powi (bitlen p - 1) \<le> (of_int p :: rat)"
    using b1 by (simp add: power_int_nonneg_exp)
  from hi have "(of_int p :: rat) < of_int (2 ^ nat (bitlen p))"
    by (simp only: of_int_less_iff)
  then have h: "(of_int p :: rat) < 2 powi (bitlen p)"
    using b1 by (simp add: power_int_nonneg_exp)
  from l h show ?thesis by simp
qed

lemma ilog2_bounds:
  assumes "0 < x"
  shows "2 powi (ilog2 x) \<le> x \<and> x < 2 powi (ilog2 x + 1)"
proof -
  obtain p q where pq: "quotient_of x = (p, q)" by (cases "quotient_of x")
  then have q: "0 < q" by (rule quotient_of_denom_pos)
  from pq have x: "x = of_int p / of_int q" by (rule quotient_of_div)
  with assms q have p: "0 < p" by (simp add: zero_less_divide_iff)
  let ?d = "bitlen p - bitlen q"
  from int_pow_bounds_rat [OF p]
  have pl: "2 powi (bitlen p - 1) \<le> (of_int p :: rat)" and ph: "(of_int p :: rat) < 2 powi (bitlen p)"
    by simp_all
  from int_pow_bounds_rat [OF q]
  have ql: "2 powi (bitlen q - 1) \<le> (of_int q :: rat)" and qh: "(of_int q :: rat) < 2 powi (bitlen q)"
    by simp_all
  have qpos: "0 < (of_int q :: rat)" using q by simp
  have "x * of_int q = of_int p" using x qpos by simp
  have up: "x < 2 powi (?d + 1)"
  proof -
    have "of_int p < (2 powi (?d + 1) :: rat) * 2 powi (bitlen q - 1)"
      using ph by (simp add: power_int_add [symmetric])
    also have "\<dots> \<le> 2 powi (?d + 1) * of_int q"
      using ql by (simp add: mult_left_mono)
    finally show ?thesis using qpos x by (simp add: pos_divide_less_eq)
  qed
  have lo: "2 powi (?d - 1) < x"
  proof -
    have "(2 powi (?d - 1) :: rat) * of_int q < 2 powi (?d - 1) * 2 powi (bitlen q)"
      using qh by (simp add: mult_strict_left_mono)
    also have "\<dots> = 2 powi (bitlen p - 1)"
      by (simp add: power_int_add [symmetric])
    also have "\<dots> \<le> of_int p" by (rule pl)
    finally show ?thesis using qpos x by (simp add: pos_less_divide_eq)
  qed
  show ?thesis
  proof (cases "2 powi ?d \<le> x")
    case True
    then have "ilog2 x = ?d" using pq by (simp add: ilog2_def)
    with True up show ?thesis by simp
  next
    case False
    then have "ilog2 x = ?d - 1" using pq by (simp add: ilog2_def)
    with False lo show ?thesis by simp
  qed
qed

lemma ilog2_mono:
  assumes "0 < x" and "x \<le> y"
  shows "ilog2 x \<le> ilog2 y"
proof -
  from assms have y: "0 < y" by simp
  from ilog2_bounds [OF assms(1)] have "2 powi (ilog2 x) \<le> x" by simp
  also note assms(2)
  also from ilog2_bounds [OF y] have "y < 2 powi (ilog2 y + 1)" by simp
  finally have lt: "(2 :: rat) powi (ilog2 x) < 2 powi (ilog2 y + 1)" .
  have "\<not> ilog2 y + 1 \<le> ilog2 x"
  proof
    assume "ilog2 y + 1 \<le> ilog2 x"
    then have "(2 :: rat) powi (ilog2 y + 1) \<le> 2 powi (ilog2 x)"
      by (rule power_int_increasing) simp
    with lt show False by simp
  qed
  then show ?thesis by simp
qed

text \<open>Rounding to the nearest integer fixes the integers and is monotone.\<close>

lemma roundTiesToEven_of_int: "roundTiesToEven (of_int n) = n"
  by (simp add: roundTiesToEven_def)

lemma roundTiesToEven_bounds:
  "\<lfloor>q\<rfloor> \<le> roundTiesToEven q \<and> roundTiesToEven q \<le> \<lfloor>q\<rfloor> + 1"
  by (simp add: roundTiesToEven_def Let_def)

lemma roundTiesToEven_mono:
  assumes "q \<le> q'"
  shows "roundTiesToEven q \<le> roundTiesToEven q'"
proof (cases "\<lfloor>q\<rfloor> = \<lfloor>q'\<rfloor>")
  case True
  with assms show ?thesis
    by (auto simp add: roundTiesToEven_def Let_def)
next
  case False
  with assms have "\<lfloor>q\<rfloor> < \<lfloor>q'\<rfloor>" using floor_mono [OF assms] by linarith
  then have "\<lfloor>q\<rfloor> + 1 \<le> \<lfloor>q'\<rfloor>" by simp
  with roundTiesToEven_bounds [of q] roundTiesToEven_bounds [of q'] show ?thesis by linarith
qed

text \<open>A positive number is rounded within its binade, whose two ends are doubles. Rounding
  is therefore monotone on the numbers that are not negative: within a binade because
  \<open>roundTiesToEven\<close> is, across binades because the ends are fixed.\<close>

lemma ulp_bexp: "ulp x = 2 powi (bexp x - 52)"
  by (simp add: ulp_def bexp_def)

lemma ulp_pos: "0 < ulp x"
  by (simp add: ulp_def)

lemma bexp_mono: "0 < x \<Longrightarrow> x \<le> y \<Longrightarrow> bexp x \<le> bexp y"
  using ilog2_mono [of x y] by (simp add: bexp_def)

lemma double_pos_eq: "0 < x \<Longrightarrow> double x = of_int (roundTiesToEven (x / ulp x)) * ulp x"
  by (simp add: double_def)

lemma pow_over_ulp: "(2 :: rat) powi (bexp x + k) / ulp x = 2 powi (52 + k)"
proof -
  have "bexp x + k = (52 + k) + (bexp x - 52)" by simp
  then have "(2 :: rat) powi (bexp x + k) = 2 powi ((52 + k) + (bexp x - 52))"
    by (rule arg_cong)
  also have "\<dots> = 2 powi (52 + k) * 2 powi (bexp x - 52)"
    by (rule power_int_add) simp
  finally have "(2 :: rat) powi (bexp x + k) = 2 powi (52 + k) * 2 powi (bexp x - 52)" .
  then show ?thesis using ulp_pos [of x] by (simp add: ulp_bexp)
qed

lemma double_nonneg:
  assumes "0 \<le> x"
  shows "0 \<le> double x"
proof (cases "x = 0")
  case True
  then show ?thesis by (simp add: double_def)
next
  case False
  with assms have x: "0 < x" by simp
  have "0 \<le> x / ulp x" using x ulp_pos [of x] by simp
  then have "roundTiesToEven (of_int 0) \<le> roundTiesToEven (x / ulp x)"
    by (intro roundTiesToEven_mono) simp
  then have "0 \<le> roundTiesToEven (x / ulp x)"
    by (simp only: roundTiesToEven_of_int)
  then show ?thesis using x ulp_pos [of x] by (simp add: double_pos_eq)
qed

lemma double_upper:
  assumes "0 < x"
  shows "double x \<le> 2 powi (bexp x + 1)"
proof -
  from ilog2_bounds [OF assms] have "x < 2 powi (ilog2 x + 1)" by simp
  also have "\<dots> \<le> 2 powi (bexp x + 1)"
    by (rule power_int_increasing) (simp_all add: bexp_def)
  finally have "x / ulp x \<le> 2 powi (bexp x + 1) / ulp x"
    using ulp_pos [of x] by (simp add: divide_right_mono)
  also have "\<dots> = of_int (2 ^ 53)"
    using pow_over_ulp [of x 1] by simp
  finally have "roundTiesToEven (x / ulp x) \<le> roundTiesToEven (of_int (2 ^ 53))"
    by (rule roundTiesToEven_mono)
  then have "roundTiesToEven (x / ulp x) \<le> 2 ^ 53"
    by (simp only: roundTiesToEven_of_int)
  then have "(of_int (roundTiesToEven (x / ulp x)) :: rat) \<le> of_int (2 ^ 53)"
    by (simp only: of_int_le_iff)
  then have "of_int (roundTiesToEven (x / ulp x)) * ulp x \<le> of_int (2 ^ 53) * ulp x"
    using ulp_pos [of x] by (simp add: mult_right_mono)
  also have "of_int (2 ^ 53) * ulp x = 2 powi (bexp x + 1)"
    using pow_over_ulp [of x 1] ulp_pos [of x] by (simp add: field_simps)
  finally show ?thesis using assms by (simp add: double_pos_eq)
qed

lemma double_lower:
  assumes "0 < x" and "- 1022 \<le> ilog2 x"
  shows "2 powi (bexp x) \<le> double x"
proof -
  from assms(2) have b: "bexp x = ilog2 x" by (simp add: bexp_def)
  from ilog2_bounds [OF assms(1)] have "2 powi (bexp x) \<le> x" by (simp add: b)
  then have "2 powi (bexp x + 0) / ulp x \<le> x / ulp x"
    using ulp_pos [of x] by (simp add: divide_right_mono)
  then have "of_int (2 ^ 52) \<le> x / ulp x"
    using pow_over_ulp [of x 0] by simp
  then have "roundTiesToEven (of_int (2 ^ 52)) \<le> roundTiesToEven (x / ulp x)"
    by (rule roundTiesToEven_mono)
  then have "2 ^ 52 \<le> roundTiesToEven (x / ulp x)"
    by (simp only: roundTiesToEven_of_int)
  then have "(of_int (2 ^ 52) :: rat) \<le> of_int (roundTiesToEven (x / ulp x))"
    by (simp only: of_int_le_iff)
  then have "of_int (2 ^ 52) * ulp x \<le> of_int (roundTiesToEven (x / ulp x)) * ulp x"
    using ulp_pos [of x] by (simp add: mult_right_mono)
  moreover have "of_int (2 ^ 52) * ulp x = 2 powi (bexp x)"
    using pow_over_ulp [of x 0] ulp_pos [of x] by (simp add: field_simps)
  ultimately show ?thesis using assms(1) by (simp add: double_pos_eq)
qed

lemma double_mono:
  assumes "0 \<le> x" and "x \<le> y"
  shows "double x \<le> double y"
proof (cases "x = 0")
  case True
  with assms double_nonneg [of y] show ?thesis by (simp add: double_def)
next
  case False
  with assms have x: "0 < x" and y: "0 < y" by simp_all
  from bexp_mono [OF x assms(2)] have le: "bexp x \<le> bexp y" .
  show ?thesis
  proof (cases "bexp x = bexp y")
    case True
    then have u: "ulp x = ulp y" by (simp add: ulp_bexp)
    from assms(2) have "x / ulp y \<le> y / ulp y"
      using ulp_pos [of y] by (simp add: divide_right_mono)
    then have "roundTiesToEven (x / ulp y) \<le> roundTiesToEven (y / ulp y)"
      by (rule roundTiesToEven_mono)
    then have "(of_int (roundTiesToEven (x / ulp y)) :: rat) \<le> of_int (roundTiesToEven (y / ulp y))"
      by (simp only: of_int_le_iff)
    then have "of_int (roundTiesToEven (x / ulp y)) * ulp y \<le>
        of_int (roundTiesToEven (y / ulp y)) * ulp y"
      using ulp_pos [of y] by (simp add: mult_right_mono)
    then show ?thesis using x y u by (simp add: double_pos_eq)
  next
    case False
    with le have lt: "bexp x + 1 \<le> bexp y" by simp
    then have "- 1022 < bexp y" by (simp add: bexp_def)
    then have iy: "- 1022 \<le> ilog2 y" by (simp add: bexp_def)
    have "double x \<le> 2 powi (bexp x + 1)" using x by (rule double_upper)
    also have "\<dots> \<le> 2 powi (bexp y)"
      using lt by (rule power_int_increasing) simp
    also have "\<dots> \<le> double y" using y iy by (rule double_lower)
    finally show ?thesis .
  qed
qed

lemma double_consts:
  "double 0 = 0" "double 1 = 1" "double (1 / 2) = 1 / 2"
  by code_simp+

lemma double_unit:
  assumes "0 \<le> q" and "q \<le> 1"
  shows "0 \<le> double q \<and> double q \<le> 1"
proof -
  from double_nonneg [OF assms(1)] have "0 \<le> double q" .
  moreover from double_mono [OF assms] have "double q \<le> 1" by (simp add: double_consts)
  ultimately show ?thesis by simp
qed

subsection \<open>The file system\<close>

text \<open>On one snapshot \<open>existsSync\<close> and \<open>statSync\<close> agree.\<close>

lemma statSync_None: "fs p = None \<Longrightarrow> statSync fs p = Inl StatError"
  by (simp add: statSync_def)

lemma statSync_Some: "fs p = Some st \<Longrightarrow> statSync fs p = Inr st"
  by (simp add: statSync_def)

lemma existsSync_None: "fs p = None \<Longrightarrow> \<not> existsSync fs p"
  by (simp add: existsSync_def)

lemma existsSync_Some: "fs p = Some st \<Longrightarrow> existsSync fs p"
  by (simp add: existsSync_def)

subsection \<open>The scan of the expected files\<close>

text \<open>One iteration adds the evidence for its entry and counts it; the log plays no part.\<close>

lemma checkFile_matches:
  "matches_l (checkFile fs pjoin base i e s) = matches_l s @ [evidence fs pjoin base e]"
  by (cases "fs (pjoin base (path_ef e))")
     (simp_all add: checkFile_def evidence_def statSync_def Let_def)

lemma checkFile_existing:
  "existingFiles_l (checkFile fs pjoin base i e s) =
     existingFiles_l s + (if readable fs pjoin base e then 1 else 0)"
  by (cases "fs (pjoin base (path_ef e))")
     (simp_all add: checkFile_def readable_def statSync_def Let_def)

lemma checkFile_perfect:
  "perfectMatches_l (checkFile fs pjoin base i e s) =
     perfectMatches_l s + (if perfect fs pjoin base e then 1 else 0)"
  by (cases "fs (pjoin base (path_ef e))")
     (simp_all add: checkFile_def perfect_def statSync_def Let_def)

lemma checkFiles_matches:
  "matches_l (checkFiles fs pjoin base es i s) = matches_l s @ map (evidence fs pjoin base) es"
  by (induction es arbitrary: i s) (simp_all add: checkFile_matches)

lemma checkFiles_existing:
  "existingFiles_l (checkFiles fs pjoin base es i s) =
     existingFiles_l s + length (filter (readable fs pjoin base) es)"
  by (induction es arbitrary: i s) (simp_all add: checkFile_existing)

lemma checkFiles_perfect:
  "perfectMatches_l (checkFiles fs pjoin base es i s) =
     perfectMatches_l s + length (filter (perfect fs pjoin base) es)"
  by (induction es arbitrary: i s) (simp_all add: checkFile_perfect)

lemma perfect_readable: "perfect fs pjoin base e \<Longrightarrow> readable fs pjoin base e"
  by (simp add: perfect_def readable_def split: option.splits)

lemma perfect_le_readable:
  "length (filter (perfect fs pjoin base) es) \<le> length (filter (readable fs pjoin base) es)"
  by (induction es) (auto dest: perfect_readable)

lemma readable_le_length: "length (filter (readable fs pjoin base) es) \<le> length es"
  by simp

subsection \<open>The three outcomes of the multi-file validator\<close>

text \<open>A missing root and a root that is not a directory give \<open>null\<close>; a directory gives a
  result determined by the snapshot and the expected files alone. The call of \<open>statSync\<close>
  outside the \<open>try\<close> follows a successful \<open>existsSync\<close>, so no exception leaves the function.\<close>

lemma validateMulti_missing:
  "fs base = None \<Longrightarrow>
   validateMultiFileStructure fs pjoin base es dbg =
     Inr (None, dbg @ [ValidatingMultiFile base, BasePathDoesNotExist])"
  by (simp add: validateMultiFileStructure_def existsSync_def)

lemma validateMulti_not_dir:
  "fs base = Some st \<Longrightarrow> \<not> isDirectory st \<Longrightarrow>
   validateMultiFileStructure fs pjoin base es dbg =
     Inr (None, dbg @ [ValidatingMultiFile base, BasePathNotDirectory])"
  by (simp add: validateMultiFileStructure_def existsSync_def statSync_def)

lemma validateMulti_dir:
  "fs base = Some st \<Longrightarrow> isDirectory st \<Longrightarrow>
   \<exists>dbg'. validateMultiFileStructure fs pjoin base es dbg =
     Inr (Some \<lparr>basePath = base,
                 confidence = multiFileConfidence (length es)
                    (length (filter (readable fs pjoin base) es))
                    (length (filter (perfect fs pjoin base) es)),
                 matches = map (evidence fs pjoin base) es,
                 totalFiles = length es,
                 existingFiles = length (filter (readable fs pjoin base) es),
                 debug = []\<rparr>, dbg')"
  by (simp add: validateMultiFileStructure_def existsSync_def statSync_def Let_def
        checkFiles_matches checkFiles_existing checkFiles_perfect)

lemma validateMulti_total:
  "\<exists>r dbg'. validateMultiFileStructure fs pjoin base es dbg = Inr (r, dbg')"
proof (cases "fs base")
  case None
  then show ?thesis by (simp add: validateMulti_missing)
next
  case (Some st)
  show ?thesis
  proof (cases "isDirectory st")
    case True
    with Some validateMulti_dir [of fs base st pjoin es dbg] show ?thesis by blast
  next
    case False
    with Some show ?thesis by (simp add: validateMulti_not_dir)
  qed
qed

lemma validateMulti_Some_dir:
  assumes "validateMultiFileStructure fs pjoin base es dbg = Inr (Some r, dbg')"
  shows "\<exists>st. fs base = Some st \<and> isDirectory st"
proof (cases "fs base")
  case None
  with assms show ?thesis by (simp add: validateMulti_missing)
next
  case (Some st)
  with assms show ?thesis by (cases "isDirectory st") (simp_all add: validateMulti_not_dir)
qed

lemma validateMulti_result:
  assumes "validateMultiFileStructure fs pjoin base es dbg = Inr (Some r, dbg')"
  shows "r = \<lparr>basePath = base,
               confidence = multiFileConfidence (length es)
                  (length (filter (readable fs pjoin base) es))
                  (length (filter (perfect fs pjoin base) es)),
               matches = map (evidence fs pjoin base) es,
               totalFiles = length es,
               existingFiles = length (filter (readable fs pjoin base) es),
               debug = []\<rparr>"
proof -
  from validateMulti_Some_dir [OF assms] obtain st where st: "fs base = Some st" "isDirectory st"
    by blast
  from validateMulti_dir [of fs base st pjoin es dbg] st assms show ?thesis by auto
qed

subsection \<open>Bounds of the multi-file score\<close>

text \<open>With \<open>p \<le> e \<le> t\<close> both ratios lie in \<open>[0, 1]\<close>, the weighted sum is at most \<open>1\<close> and the
  bonus lifts it to at most the double \<open>1.1\<close>. The bounds pass through each rounding because
  \<open>double\<close> is monotone.\<close>

lemma existenceRatio_bounds:
  "e \<le> t \<Longrightarrow> 0 \<le> existenceRatio e t \<and> existenceRatio e t \<le> 1"
  unfolding existenceRatio_def by (rule double_unit) (auto simp add: divide_le_eq_1)

lemma perfectMatchRatio_bounds:
  assumes "p \<le> e"
  shows "0 \<le> perfectMatchRatio p e \<and> perfectMatchRatio p e \<le> 1"
proof (cases "0 < e")
  case True
  have "0 \<le> double (of_nat p / of_nat e) \<and> double (of_nat p / of_nat e) \<le> 1"
    by (rule double_unit) (use assms True in \<open>auto simp add: divide_le_eq_1\<close>)
  with True show ?thesis by (simp add: perfectMatchRatio_def)
next
  case False
  then show ?thesis by (simp add: perfectMatchRatio_def)
qed

text \<open>The weighted sum of two ratios in the unit interval, rounded after each operation,
  and the constants its bounds evaluate to.\<close>

lemma weighted_sum_bounds:
  assumes er: "0 \<le> er" "er \<le> b" and b: "b \<le> 1" and pr: "0 \<le> pr" "pr \<le> 1"
  shows "0 \<le> double (double (er * double (7 / 10)) + double (pr * double (3 / 10)))"
    and "double (double (er * double (7 / 10)) + double (pr * double (3 / 10)))
          \<le> double (double (b * double (7 / 10)) + double (3 / 10))"
proof -
  have c7: "0 \<le> double (7 / 10)" and c3: "0 \<le> double (3 / 10)"
    by (simp_all add: double_nonneg)
  have a0: "0 \<le> er * double (7 / 10)" using er c7 by simp
  have a1: "er * double (7 / 10) \<le> b * double (7 / 10)"
    using er c7 by (simp add: mult_right_mono)
  have b0: "0 \<le> pr * double (3 / 10)" using pr c3 by simp
  have b1: "pr * double (3 / 10) \<le> double (3 / 10)"
    using pr c3 mult_right_mono [of pr 1 "double (3 / 10)"] by simp
  have da: "0 \<le> double (er * double (7 / 10))" using a0 by (rule double_nonneg)
  have da1: "double (er * double (7 / 10)) \<le> double (b * double (7 / 10))"
    using a0 a1 by (rule double_mono)
  have db: "0 \<le> double (pr * double (3 / 10))" using b0 by (rule double_nonneg)
  have db1: "double (pr * double (3 / 10)) \<le> double (double (3 / 10))"
    using b0 b1 by (rule double_mono)
  have idem: "double (double (3 / 10)) = double (3 / 10)" by code_simp
  have s0: "0 \<le> double (er * double (7 / 10)) + double (pr * double (3 / 10))"
    using da db by simp
  have s1: "double (er * double (7 / 10)) + double (pr * double (3 / 10))
      \<le> double (b * double (7 / 10)) + double (3 / 10)"
    using da1 db1 idem by simp
  show "0 \<le> double (double (er * double (7 / 10)) + double (pr * double (3 / 10)))"
    using s0 by (rule double_nonneg)
  show "double (double (er * double (7 / 10)) + double (pr * double (3 / 10)))
          \<le> double (double (b * double (7 / 10)) + double (3 / 10))"
    using s0 s1 by (rule double_mono)
qed

lemma double_sum_consts:
  "double (double (1 * double (7 / 10)) + double (3 / 10)) = 1"
  "double (double (double (7 / 10)) + double (3 / 10)) = 1"
  "double (1 + double (1 / 10)) = double (11 / 10)"
  "double (6 / 10) \<le> double (11 / 10)"
  "1 \<le> double (11 / 10)"
  "double (6 / 10) \<le> 1"
  "0 \<le> double (6 / 10)"
  "double (double (double (8 / 10) * double (7 / 10)) + double (3 / 10)) \<le> 1"
  "double (8 / 10) \<le> 1"
  by code_simp+

lemma multiFileConfidence_bounds:
  assumes "p \<le> e" and "e \<le> t"
  shows "0 \<le> multiFileConfidence t e p \<and> multiFileConfidence t e p \<le> double (11 / 10)"
proof (cases "0 < e")
  case False
  then show ?thesis using double_sum_consts(5) by (simp add: multiFileConfidence_def)
next
  case True
  let ?er = "existenceRatio e t" and ?pr = "perfectMatchRatio p e"
  let ?c1 = "double (double (?er * double (7 / 10)) + double (?pr * double (3 / 10)))"
  from assms have er: "0 \<le> ?er" "?er \<le> 1"
    using existenceRatio_bounds by blast+
  from assms have pr: "0 \<le> ?pr" "?pr \<le> 1"
    using perfectMatchRatio_bounds by blast+
  from weighted_sum_bounds [OF er(1) er(2) order_refl pr]
  have c1: "0 \<le> ?c1" "?c1 \<le> 1" by (simp_all add: double_sum_consts)
  have c2a: "0 \<le> double (?c1 + double (1 / 10))"
    using c1(1) double_nonneg [of "1 / 10"] by (intro double_nonneg) simp
  have "double (?c1 + double (1 / 10)) \<le> double (1 + double (1 / 10))"
    using c1 double_nonneg [of "1 / 10"] by (intro double_mono) simp_all
  then have c2b: "double (?c1 + double (1 / 10)) \<le> double (11 / 10)"
    by (simp add: double_sum_consts)
  from c1 c2a c2b double_sum_consts(4,5,7) True show ?thesis
    by (simp add: multiFileConfidence_def Let_def max_def)
qed

lemma multiFileConfidence_no_bonus:
  assumes "p \<le> e" and "e \<le> t" and "\<not> existenceRatio e t > double (8 / 10)"
  shows "multiFileConfidence t e p \<le> 1"
proof (cases "0 < e")
  case False
  then show ?thesis by (simp add: multiFileConfidence_def)
next
  case True
  let ?er = "existenceRatio e t" and ?pr = "perfectMatchRatio p e"
  let ?c1 = "double (double (?er * double (7 / 10)) + double (?pr * double (3 / 10)))"
  from assms have er: "0 \<le> ?er" "?er \<le> double (8 / 10)"
    using existenceRatio_bounds by (blast, simp)
  from assms have pr: "0 \<le> ?pr" "?pr \<le> 1"
    using perfectMatchRatio_bounds by blast+
  from weighted_sum_bounds [OF er double_sum_consts(9) pr] double_sum_consts(8)
  have c1: "?c1 \<le> 1" by simp
  from c1 assms(3) double_sum_consts(6) True show ?thesis
    by (simp add: multiFileConfidence_def Let_def max_def)
qed

lemma multiFileConfidence_zero: "multiFileConfidence t 0 p = 0"
  by (simp add: multiFileConfidence_def)

lemma validateMulti_conf:
  assumes "validateMultiFileStructure fs pjoin base es dbg = Inr (Some r, d)"
  shows "0 \<le> confidence r \<and> confidence r \<le> double (11 / 10)"
proof (cases "fs base")
  case None
  with assms show ?thesis by (simp add: validateMulti_missing)
next
  case (Some st)
  show ?thesis
  proof (cases "isDirectory st")
    case True
    from validateMulti_dir [of fs base st pjoin es dbg] Some True assms
    have "confidence r = multiFileConfidence (length es)
        (length (filter (readable fs pjoin base) es))
        (length (filter (perfect fs pjoin base) es))" by auto
    then show ?thesis
      using multiFileConfidence_bounds [OF perfect_le_readable readable_le_length] by simp
  next
    case False
    with Some assms show ?thesis by (simp add: validateMulti_not_dir)
  qed
qed

subsection \<open>The single-file validator\<close>

text \<open>The result of \<open>validateSingleFile\<close> in terms of \<open>singleFileConfidence\<close>, and the bounds of
  the latter.\<close>

lemma validateSingleFile_missing:
  "fs p = None \<Longrightarrow>
   validateSingleFile fs p ef dbg =
     (None, dbg @ [ValidatingSingleFile p, ErrorValidatingSingleFile StatError])"
  by (simp add: validateSingleFile_def statSync_def)

lemma validateSingleFile_present:
  "fs p = Some st \<Longrightarrow>
   \<exists>dbg'. validateSingleFile fs p ef dbg =
     (Some (singleFileConfidence (int (size_st st)) (size_ef ef),
            \<lparr>expectedPath = path_ef ef, actualPath = p, exists = True,
              expectedSize = size_ef ef, actualSize = int (size_st st),
              sizeMatch = (int (size_st st) = size_ef ef)\<rparr>), dbg')"
  by (auto simp add: validateSingleFile_def statSync_def Let_def singleFileConfidence_def)

lemma single_consts:
  "double (5 / 10) = 1 / 2"
  "double (1 / 2) = 1 / 2"
  "double (1 / 2 + 0) = 1 / 2"
  "double (1 / 2 + double (3 / 10)) = double (8 / 10)"
  "double (double (3 / 10)) = double (3 / 10)"
  "2 / 10 \<le> double (2 / 10)"
  "double (2 / 10) \<le> 1"
  "double (8 / 10) \<le> 1"
  by code_simp+

lemma singleFileConfidence_partial:
  assumes "0 < a" and "a < x"
  shows "5 / 10 \<le> singleFileConfidence a x \<and> singleFileConfidence a x \<le> double (8 / 10)"
proof -
  let ?cr = "double (of_int a / of_int x)"
  let ?t = "double (?cr * double (3 / 10))"
  have q: "0 \<le> (of_int a / of_int x :: rat)" "(of_int a / of_int x :: rat) \<le> 1"
    using assms by simp_all
  from double_unit [OF q] have cr: "0 \<le> ?cr" "?cr \<le> 1" by simp_all
  have c3: "0 \<le> double (3 / 10)" by (simp add: double_nonneg)
  have m0: "0 \<le> ?cr * double (3 / 10)" using cr c3 by simp
  have m1: "?cr * double (3 / 10) \<le> double (3 / 10)"
    using cr c3 mult_right_mono [of ?cr 1 "double (3 / 10)"] by simp
  have t0: "0 \<le> ?t" using m0 by (rule double_nonneg)
  have t1: "?t \<le> double (3 / 10)"
    using double_mono [OF m0 m1] by (simp add: single_consts)
  have lo: "double (1 / 2 + 0) \<le> double (1 / 2 + ?t)"
    using t0 by (intro double_mono) simp_all
  have hi: "double (1 / 2 + ?t) \<le> double (1 / 2 + double (3 / 10))"
    using t0 t1 by (intro double_mono) simp_all
  have eq: "singleFileConfidence a x = double (1 / 2 + ?t)"
    using assms by (simp add: singleFileConfidence_def single_consts)
  from lo hi show ?thesis unfolding eq by (simp add: single_consts)
qed



lemma singleFileConfidence_bounds:
  "2 / 10 \<le> singleFileConfidence a x \<and> singleFileConfidence a x \<le> 1"
proof (cases "0 < a \<and> a < x")
  case True
  then show ?thesis
    using singleFileConfidence_partial [of a x] single_consts(8) by simp
next
  case False
  then show ?thesis
    using single_consts(6,7) by (auto simp add: singleFileConfidence_def)
qed

lemma validateSingleFile_conf:
  assumes "validateSingleFile fs p ef dbg = (Some (c, m), d)"
  shows "2 / 10 \<le> c \<and> c \<le> 1"
proof (cases "fs p")
  case None
  with assms show ?thesis by (simp add: validateSingleFile_missing)
next
  case (Some st)
  from validateSingleFile_present [of fs p st ef dbg] Some assms
  have "c = singleFileConfidence (int (size_st st)) (size_ef ef)" by auto
  then show ?thesis using singleFileConfidence_bounds by simp
qed

lemma validateFirst_conf:
  "validateFirst fs p efs dbg = (Some (c, m), d) \<Longrightarrow> 2 / 10 \<le> c \<and> c \<le> 1"
  by (cases efs) (auto simp add: validateFirst_def dest: validateSingleFile_conf)

subsection \<open>Validator calls recorded in the log\<close>

text \<open>The scan logs no validation line of its own; each validator adds exactly its first
  line. The loops over the structures and the body of the loop over the base paths
  always return.\<close>

lemma validations_append [simp]: "validations (xs @ ys) = validations xs @ validations ys"
  by (simp add: validations_def)

lemma validations_simps [simp]:
  "validations [] = []"
  "validations (m # ms) = (if isValidation m then m # validations ms else validations ms)"
  by (simp_all add: validations_def)

lemma checkFile_validations:
  "validations (debug_l (checkFile fs pjoin base i e s)) = validations (debug_l s)"
  by (cases "fs (pjoin base (path_ef e))")
     (simp_all add: checkFile_def statSync_def Let_def)

lemma checkFiles_validations:
  "validations (debug_l (checkFiles fs pjoin base es i s)) = validations (debug_l s)"
  by (induction es arbitrary: i s) (simp_all add: checkFile_validations)

lemma validateMulti_validations:
  assumes "validateMultiFileStructure fs pjoin base es dbg = Inr (r, dbg')"
  shows "validations dbg' = validations dbg @ [ValidatingMultiFile base]"
proof (cases "fs base")
  case None
  with assms show ?thesis by (auto simp add: validateMulti_missing)
next
  case (Some st)
  show ?thesis
  proof (cases "isDirectory st")
    case True
    with Some assms show ?thesis
      by (auto simp add: validateMultiFileStructure_def existsSync_def statSync_def Let_def
            checkFiles_validations)
  next
    case False
    with Some assms show ?thesis by (auto simp add: validateMulti_not_dir)
  qed
qed

lemma validateSingleFile_validations:
  "validations (snd (validateSingleFile fs p ef dbg)) = validations dbg @ [ValidatingSingleFile p]"
  by (cases "fs p") (simp_all add: validateSingleFile_def statSync_def Let_def)

lemma validateFirst_validations:
  "validations (snd (validateFirst fs p efs dbg)) = validations dbg @ [ValidatingSingleFile p]"
  by (cases efs) (simp_all add: validateFirst_def validateSingleFile_validations)

lemma pushSingleFile_snd: "snd (pushSingleFile base cands r) = snd r"
  by (simp add: pushSingleFile_def split: prod.splits option.splits)

lemma testSingleFile_validations:
  "validations (snd (testSingleFile fs pjoin nm efs base st (cands, dbg))) =
     validations dbg
     @ (if isFile st then [ValidatingSingleFile base] else [])
     @ (if isDirectory st \<and> existsSync fs (pjoin base nm)
        then [ValidatingSingleFile (pjoin base nm)] else [])"
proof -
  define a2 where "a2 =
    (if isFile st
     then pushSingleFile base cands (validateFirst fs base efs (dbg @ [CheckingSingleFile]))
     else (cands, dbg @ [CheckingSingleFile]))"
  have a2v: "validations (snd a2) =
      validations dbg @ (if isFile st then [ValidatingSingleFile base] else [])"
    by (simp add: a2_def pushSingleFile_snd validateFirst_validations)
  have ts: "testSingleFile fs pjoin nm efs base st (cands, dbg) =
      (if isDirectory st then
         (if existsSync fs (pjoin base nm)
          then pushSingleFile base (fst a2)
                 (validateFirst fs (pjoin base nm) efs (snd a2 @ [CheckingForFileAt (pjoin base nm)]))
          else (fst a2, snd a2 @ [CheckingForFileAt (pjoin base nm), FileNotFound]))
       else a2)"
    by (simp add: testSingleFile_def a2_def Let_def split: prod.splits)
  show ?thesis
    unfolding ts using a2v by (simp add: pushSingleFile_snd validateFirst_validations)
qed

lemma testStructures_validations:
  "\<exists>cands' dbg'. testStructures fs pjoin efs base pts (cands, dbg) = Inr (cands', dbg') \<and>
     validations dbg' = validations dbg @ map (\<lambda>pt. ValidatingMultiFile (fst pt)) pts"
proof (induction pts arbitrary: cands dbg)
  case Nil
  then show ?case by simp
next
  case (Cons pt pts)
  obtain testPath description where pt: "pt = (testPath, description)" by (cases pt)
  obtain r dbg1 where v: "validateMultiFileStructure fs pjoin testPath efs
      (dbg @ [TestingMultiFile description testPath]) = Inr (r, dbg1)"
    using validateMulti_total by blast
  have d1: "validations dbg1 = validations dbg @ [ValidatingMultiFile testPath]"
    using validateMulti_validations [OF v] by simp
  show ?case
  proof (cases r)
    case None
    from Cons.IH [of cands dbg1] obtain c' d' where
      "testStructures fs pjoin efs base pts (cands, dbg1) = Inr (c', d')"
      "validations d' = validations dbg1 @ map (\<lambda>pt. ValidatingMultiFile (fst pt)) pts"
      by blast
    with v None d1 pt show ?thesis by simp
  next
    case (Some res)
    show ?thesis
    proof (cases "confidence res > 0")
      case True
      let ?d2 = "dbg1 @ [FoundCandidate (confidence res)]"
      from Cons.IH [of "cands @ [res\<lparr>basePath := base, debug := ?d2\<rparr>]" ?d2] obtain c' d' where
        "testStructures fs pjoin efs base pts
           (cands @ [res\<lparr>basePath := base, debug := ?d2\<rparr>], ?d2) = Inr (c', d')"
        "validations d' = validations ?d2 @ map (\<lambda>pt. ValidatingMultiFile (fst pt)) pts"
        by blast
      with v Some d1 pt True show ?thesis by (simp add: Let_def)
    next
      case False
      from Cons.IH [of cands dbg1] obtain c' d' where
        "testStructures fs pjoin efs base pts (cands, dbg1) = Inr (c', d')"
        "validations d' = validations dbg1 @ map (\<lambda>pt. ValidatingMultiFile (fst pt)) pts"
        by blast
      with v Some d1 pt False show ?thesis by simp
    qed
  qed
qed

lemma testBasePath_validations:
  "\<exists>cands' dbg'. testBasePath fs pjoin nm isSingle efs i base (cands, dbg) = Inr (cands', dbg') \<and>
     validations dbg' = validations dbg @
       (case fs base of
          None \<Rightarrow> []
        | Some st \<Rightarrow>
            if isSingle then
              (if isFile st then [ValidatingSingleFile base] else []) @
              (if isDirectory st \<and> existsSync fs (pjoin base nm)
               then [ValidatingSingleFile (pjoin base nm)] else [])
            else if isDirectory st
              then [ValidatingMultiFile (pjoin base nm), ValidatingMultiFile base]
              else [])"
proof (cases "fs base")
  case None
  then show ?thesis by (simp add: testBasePath_def existsSync_def)
next
  case (Some st)
  let ?d2 = "dbg @ [TestingPath (i + 1) base, PathExists (isDirectory st) (isFile st)]"
  show ?thesis
  proof (cases isSingle)
    case True
    obtain c' d' where t: "testSingleFile fs pjoin nm efs base st (cands, ?d2) = (c', d')"
      by (cases "testSingleFile fs pjoin nm efs base st (cands, ?d2)")
    have "validations d' = validations ?d2
       @ (if isFile st then [ValidatingSingleFile base] else [])
       @ (if isDirectory st \<and> existsSync fs (pjoin base nm)
          then [ValidatingSingleFile (pjoin base nm)] else [])"
      using testSingleFile_validations [of fs pjoin nm efs base st cands ?d2] t by simp
    with Some True t show ?thesis
      by (simp add: testBasePath_def existsSync_def statSync_def)
  next
    case False
    show ?thesis
    proof (cases "isDirectory st")
      case dir: True
      let ?pts = "[(pjoin base nm, ''with torrent name folder''), (base, ''direct in base path'')]"
      from testStructures_validations [of fs pjoin efs base ?pts cands ?d2]
      obtain c' d' where "testStructures fs pjoin efs base ?pts (cands, ?d2) = Inr (c', d')"
        "validations d' = validations ?d2 @ map (\<lambda>pt. ValidatingMultiFile (fst pt)) ?pts"
        by blast
      with Some False dir show ?thesis
        by (simp add: testBasePath_def existsSync_def statSync_def Let_def)
    next
      case nodir: False
      with Some False show ?thesis
        by (simp add: testBasePath_def existsSync_def statSync_def)
    qed
  qed
qed

subsection \<open>The manifest loop\<close>

text \<open>The loop pushes the image of each file, in order.\<close>

lemma pushFiles_map:
  "pushFiles fls acc =
     acc @ map (\<lambda>f. \<lparr>path_ef = array_join (path_tf f) ''/'', size_ef = length_tf f\<rparr>) fls"
  by (induction fls arbitrary: acc) simp_all

subsection \<open>The reduction picks the first maximum\<close>

text \<open>Appending one element to a list whose first maximum is at \<open>k\<close> moves the first
  maximum to the new element exactly when \<open>better\<close> prefers it, that is when it is
  strictly greater.\<close>

lemma firstMaxAt_step:
  assumes "firstMaxAt cs k"
  shows "\<exists>k'. firstMaxAt (cs @ [x]) k' \<and> better (cs ! k) x = (cs @ [x]) ! k'"
proof (cases "confidence x > confidence (cs ! k)")
  case True
  from assms have mx: "\<And>j. j < length cs \<Longrightarrow> confidence (cs ! j) \<le> confidence (cs ! k)"
    by (simp add: firstMaxAt_def)
  have "firstMaxAt (cs @ [x]) (length cs)"
    unfolding firstMaxAt_def
  proof (intro conjI allI impI)
    show "length cs < length (cs @ [x])" by simp
  next
    fix j assume "j < length (cs @ [x])"
    then have "j < length cs \<or> j = length cs" by auto
    then show "confidence ((cs @ [x]) ! j) \<le> confidence ((cs @ [x]) ! length cs)"
      using mx [of j] True by (auto simp add: nth_append)
  next
    fix j assume "j < length cs"
    then show "confidence ((cs @ [x]) ! j) < confidence ((cs @ [x]) ! length cs)"
      using mx [of j] True by (simp add: nth_append)
  qed
  moreover have "better (cs ! k) x = (cs @ [x]) ! length cs"
    using True by (simp add: better_def)
  ultimately show ?thesis by blast
next
  case False
  from assms have k: "k < length cs"
    and mx: "\<And>j. j < length cs \<Longrightarrow> confidence (cs ! j) \<le> confidence (cs ! k)"
    and fm: "\<And>j. j < k \<Longrightarrow> confidence (cs ! j) < confidence (cs ! k)"
    by (simp_all add: firstMaxAt_def)
  have "firstMaxAt (cs @ [x]) k"
    unfolding firstMaxAt_def
  proof (intro conjI allI impI)
    show "k < length (cs @ [x])" using k by simp
  next
    fix j assume "j < length (cs @ [x])"
    then have "j < length cs \<or> j = length cs" by auto
    then show "confidence ((cs @ [x]) ! j) \<le> confidence ((cs @ [x]) ! k)"
      using mx [of j] False k by (auto simp add: nth_append)
  next
    fix j assume "j < k"
    then show "confidence ((cs @ [x]) ! j) < confidence ((cs @ [x]) ! k)"
      using fm [of j] k by (simp add: nth_append)
  qed
  moreover have "better (cs ! k) x = (cs @ [x]) ! k"
    using False k by (simp add: better_def nth_append)
  ultimately show ?thesis by blast
qed

lemma firstMaxAt_foldl:
  "firstMaxAt cs k \<Longrightarrow>
   \<exists>k'. firstMaxAt (cs @ xs) k' \<and> foldl better (cs ! k) xs = (cs @ xs) ! k'"
proof (induction xs arbitrary: cs k)
  case Nil
  then show ?case by auto
next
  case (Cons x xs)
  from firstMaxAt_step [OF Cons.prems, of x] obtain k1 where
    k1: "firstMaxAt (cs @ [x]) k1" "better (cs ! k) x = (cs @ [x]) ! k1" by blast
  from Cons.IH [OF k1(1)] obtain k' where
    "firstMaxAt ((cs @ [x]) @ xs) k'" "foldl better ((cs @ [x]) ! k1) xs = ((cs @ [x]) @ xs) ! k'"
    by blast
  with k1(2) show ?case by auto
qed

lemma reduce_better_first_max:
  "cs \<noteq> [] \<Longrightarrow> \<exists>k. firstMaxAt cs k \<and> reduce better cs = Inr (cs ! k)"
proof (cases cs)
  case Nil
  assume "cs \<noteq> []"
  with Nil show ?thesis by simp
next
  case (Cons b xs)
  have "firstMaxAt [b] 0" by (simp add: firstMaxAt_def)
  from firstMaxAt_foldl [OF this, of xs] Cons show ?thesis by auto
qed

lemma reduce_better_mem:
  assumes "reduce better cs = Inr r"
  shows "r \<in> set cs"
proof -
  from assms have ne: "cs \<noteq> []" by auto
  from reduce_better_first_max [OF ne] assms obtain k where "k < length cs" "r = cs ! k"
    by (auto simp add: firstMaxAt_def)
  then show ?thesis by simp
qed

text \<open>With no base path to test, the candidate array is empty and the reduction throws.\<close>

lemma findCorrectTorrentPath_no_paths:
  "findCorrectTorrentPath fs pjoin td [] = Inl TypeError"
  by (simp add: findCorrectTorrentPath_def Let_def)

subsection \<open>The candidate list only grows, by candidates in range\<close>

text \<open>Every push appends at the end. A single-file candidate has a confidence in
  \<open>[0.2, 1]\<close>; a multi-file candidate is pushed only under \<open>confidence > 0\<close>.\<close>

lemma extends_refl: "extends cands cands"
  by (simp add: extends_def)

lemma extends_trans: "extends a b \<Longrightarrow> extends b c \<Longrightarrow> extends a c"
  by (auto simp add: extends_def)

lemma extends_snoc: "inRange c \<Longrightarrow> extends cands (cands @ [c])"
  by (simp add: extends_def)

lemma pushSingleFile_extends:
  "extends cands (fst (pushSingleFile base cands (validateFirst fs p efs dbg)))"
proof (cases "validateFirst fs p efs dbg")
  case (Pair r d)
  show ?thesis
  proof (cases r)
    case None
    with Pair show ?thesis by (simp add: pushSingleFile_def extends_refl)
  next
    case (Some cm)
    obtain c m where cm: "cm = (c, m)" by (cases cm)
    from Pair Some cm validateFirst_conf [of fs p efs dbg c m d]
    have "2 / 10 \<le> c \<and> c \<le> 1" by simp
    then have "inRange \<lparr>basePath = base, confidence = c, matches = [m], totalFiles = 1,
        existingFiles = (if exists m then 1 else 0), debug = d\<rparr>"
      using double_sum_consts(5) by (simp add: inRange_def)
    with Pair Some cm show ?thesis by (simp add: pushSingleFile_def extends_snoc)
  qed
qed

lemma testSingleFile_extends:
  "extends cands (fst (testSingleFile fs pjoin nm efs base st (cands, dbg)))"
proof -
  define a2 where "a2 =
    (if isFile st
     then pushSingleFile base cands (validateFirst fs base efs (dbg @ [CheckingSingleFile]))
     else (cands, dbg @ [CheckingSingleFile]))"
  have e1: "extends cands (fst a2)"
    by (simp add: a2_def pushSingleFile_extends extends_refl)
  have ts: "testSingleFile fs pjoin nm efs base st (cands, dbg) =
      (if isDirectory st then
         (if existsSync fs (pjoin base nm)
          then pushSingleFile base (fst a2)
                 (validateFirst fs (pjoin base nm) efs (snd a2 @ [CheckingForFileAt (pjoin base nm)]))
          else (fst a2, snd a2 @ [CheckingForFileAt (pjoin base nm), FileNotFound]))
       else a2)"
    by (simp add: testSingleFile_def a2_def Let_def split: prod.splits)
  have "extends (fst a2) (fst (testSingleFile fs pjoin nm efs base st (cands, dbg)))"
    unfolding ts by (simp add: pushSingleFile_extends extends_refl)
  with e1 show ?thesis by (rule extends_trans)
qed

lemma testStructures_excluded:
  assumes "fs base = Some st" and "isDirectory st"
    and "length (filter (readable fs pjoin base) es) = 0"
  shows "map_sum id fst (testStructures fs pjoin es b [(base, descr)] (cands, dbg0)) = Inr cands"
proof -
  from validateMulti_dir [of fs base st pjoin es "dbg0 @ [TestingMultiFile descr base]"] assms
  obtain d1 where "validateMultiFileStructure fs pjoin base es (dbg0 @ [TestingMultiFile descr base]) =
     Inr (Some \<lparr>basePath = base,
                 confidence = multiFileConfidence (length es) 0
                    (length (filter (perfect fs pjoin base) es)),
                 matches = map (evidence fs pjoin base) es,
                 totalFiles = length es,
                 existingFiles = 0,
                 debug = []\<rparr>, d1)"
    by auto
  then show ?thesis by (simp add: multiFileConfidence_zero)
qed

lemma testStructures_extends:
  "testStructures fs pjoin efs base pts (cands, dbg) = Inr (cands', dbg') \<Longrightarrow>
   extends cands cands'"
proof (induction pts arbitrary: cands dbg)
  case Nil
  then show ?case by (simp add: extends_refl)
next
  case (Cons pt pts)
  obtain testPath description where pt: "pt = (testPath, description)" by (cases pt)
  obtain r dbg1 where v: "validateMultiFileStructure fs pjoin testPath efs
      (dbg @ [TestingMultiFile description testPath]) = Inr (r, dbg1)"
    using validateMulti_total by blast
  show ?case
  proof (cases r)
    case None
    with Cons.prems v pt have "testStructures fs pjoin efs base pts (cands, dbg1) = Inr (cands', dbg')"
      by simp
    then show ?thesis by (rule Cons.IH)
  next
    case (Some res)
    show ?thesis
    proof (cases "confidence res > 0")
      case True
      let ?d2 = "dbg1 @ [FoundCandidate (confidence res)]"
      let ?c = "res\<lparr>basePath := base, debug := ?d2\<rparr>"
      from Cons.prems v pt Some True
      have "testStructures fs pjoin efs base pts (cands @ [?c], ?d2) = Inr (cands', dbg')"
        by (simp add: Let_def)
      then have e2: "extends (cands @ [?c]) cands'" by (rule Cons.IH)
      from v Some validateMulti_conf have "confidence res \<le> double (11 / 10)" by blast
      with True have "inRange ?c" by (simp add: inRange_def)
      then have "extends cands (cands @ [?c])" by (rule extends_snoc)
      then show ?thesis using e2 by (rule extends_trans)
    next
      case False
      with Cons.prems v pt Some
      have "testStructures fs pjoin efs base pts (cands, dbg1) = Inr (cands', dbg')"
        by simp
      then show ?thesis by (rule Cons.IH)
    qed
  qed
qed

lemma testBasePath_extends:
  assumes "testBasePath fs pjoin nm isSingle efs i base (cands, dbg) = Inr (cands', dbg')"
  shows "extends cands cands'"
proof (cases "fs base")
  case None
  with assms show ?thesis by (auto simp add: testBasePath_def existsSync_def extends_refl)
next
  case (Some st)
  let ?d2 = "dbg @ [TestingPath (i + 1) base, PathExists (isDirectory st) (isFile st)]"
  show ?thesis
  proof (cases isSingle)
    case True
    with Some assms have "cands' = fst (testSingleFile fs pjoin nm efs base st (cands, ?d2))"
      by (auto simp add: testBasePath_def existsSync_def statSync_def)
    then show ?thesis by (simp add: testSingleFile_extends)
  next
    case False
    show ?thesis
    proof (cases "isDirectory st")
      case dir: True
      with Some False assms have "testStructures fs pjoin efs base
          [(pjoin base nm, ''with torrent name folder''), (base, ''direct in base path'')]
          (cands, ?d2) = Inr (cands', dbg')"
        by (simp add: testBasePath_def existsSync_def statSync_def Let_def)
      then show ?thesis by (rule testStructures_extends)
    next
      case nodir: False
      with Some False assms show ?thesis
        by (auto simp add: testBasePath_def existsSync_def statSync_def extends_refl)
    qed
  qed
qed

lemma testPaths_extends:
  "testPaths fs pjoin nm isSingle efs paths i (cands, dbg) = Inr (cands', dbg') \<Longrightarrow>
   extends cands cands'"
proof (induction paths arbitrary: i cands dbg)
  case Nil
  then show ?case by (simp add: extends_refl)
next
  case (Cons base rest)
  from testBasePath_validations [of fs pjoin nm isSingle efs i base cands dbg]
  obtain c1 d1 where b: "testBasePath fs pjoin nm isSingle efs i base (cands, dbg) = Inr (c1, d1)"
    by blast
  with Cons.prems have "testPaths fs pjoin nm isSingle efs rest (Suc i) (c1, d1) = Inr (cands', dbg')"
    by simp
  then have "extends c1 cands'" by (rule Cons.IH)
  with testBasePath_extends [OF b] show ?case by (rule extends_trans)
qed

lemma testPaths_total:
  "\<exists>cands' dbg'. testPaths fs pjoin nm isSingle efs paths i (cands, dbg) = Inr (cands', dbg')"
proof (induction paths arbitrary: i cands dbg)
  case Nil
  then show ?case by simp
next
  case (Cons base rest)
  from testBasePath_validations [of fs pjoin nm isSingle efs i base cands dbg]
  obtain c1 d1 where b: "testBasePath fs pjoin nm isSingle efs i base (cands, dbg) = Inr (c1, d1)"
    by blast
  with Cons.IH [of "Suc i" c1 d1] show ?case by simp
qed

lemma testPaths_append:
  "testPaths fs pjoin nm isSingle efs (ps @ qs) i a =
     (case testPaths fs pjoin nm isSingle efs ps i a of
        Inl err \<Rightarrow> Inl err
      | Inr a' \<Rightarrow> testPaths fs pjoin nm isSingle efs qs (i + length ps) a')"
  by (induction ps arbitrary: i a) (simp_all split: sum.splits)

lemma findCorrectTorrentPath_conf:
  assumes "findCorrectTorrentPath fs pjoin td paths = Inr r"
  shows "inRange r"
proof -
  let ?nm = "name (info td)"
  let ?single = "case files (info td) of None \<Rightarrow> True | Some fls \<Rightarrow> False"
  let ?efs = "getExpectedFiles td"
  let ?dbg = "initialDebug ?nm ?single ?efs (length paths)"
  obtain cands d where t: "testPaths fs pjoin ?nm ?single ?efs paths 0 ([], ?dbg) = Inr (cands, d)"
    using testPaths_total by blast
  with assms have r: "reduce better cands = Inr r"
    by (simp add: findCorrectTorrentPath_def Let_def)
  from testPaths_extends [OF t] have "list_all inRange cands"
    by (simp add: extends_def)
  with reduce_better_mem [OF r] show ?thesis by (simp add: list_all_iff)
qed

subsection \<open>Facts about the evidence\<close>

lemma evidence_sizeMatch_exists:
  "sizeMatch (evidence fs pjoin base e) \<Longrightarrow> exists (evidence fs pjoin base e)"
  by (cases "fs (pjoin base (path_ef e))") (simp_all add: evidence_def)

lemma evidence_expectedPath: "expectedPath (evidence fs pjoin base e) = path_ef e"
  by (cases "fs (pjoin base (path_ef e))") (simp_all add: evidence_def)

lemma evidence_fields:
  "case fs (pjoin base (path_ef e)) of
     None \<Rightarrow>
       \<not> exists (evidence fs pjoin base e) \<and> actualSize (evidence fs pjoin base e) = 0 \<and>
       \<not> sizeMatch (evidence fs pjoin base e)
   | Some st \<Rightarrow>
       exists (evidence fs pjoin base e) \<and>
       actualSize (evidence fs pjoin base e) = int (size_st st) \<and>
       sizeMatch (evidence fs pjoin base e) = (int (size_st st) = size_ef e)"
  by (cases "fs (pjoin base (path_ef e))") (simp_all add: evidence_def)

subsection \<open>The candidates collected are the candidates in evaluation order\<close>

text \<open>The result of a validator does not depend on the log it is given, so each push adds
  the candidate of its hypothesis; the loops add them in the order they run.\<close>

lemma strip_simps [simp]:
  "confidence (strip c) = confidence c" "basePath (strip c) = basePath c"
  "matches (strip c) = matches c" "debug (strip c) = []"
  by (simp_all add: strip_def)

lemma validateSingleFile_fst:
  "fst (validateSingleFile fs p ef dbg) = fst (validateSingleFile fs p ef [])"
proof (cases "fs p")
  case None
  then show ?thesis by (simp add: validateSingleFile_missing)
next
  case (Some st)
  from validateSingleFile_present [of fs p st ef dbg] validateSingleFile_present [of fs p st ef "[]"] Some
  show ?thesis by auto
qed

lemma validateSingleFile_exists:
  assumes "validateSingleFile fs p ef dbg = (Some (c, m), d)"
  shows "exists m"
proof (cases "fs p")
  case None
  with assms show ?thesis by (simp add: validateSingleFile_missing)
next
  case (Some st)
  from validateSingleFile_present [of fs p st ef dbg] Some assms show ?thesis by auto
qed

lemma pushSingleFile_strip:
  "map strip (fst (pushSingleFile base cands (validateFirst fs p efs dbg))) =
     map strip cands @ singleCandidate fs efs base p"
proof (cases efs)
  case Nil
  then show ?thesis by (simp add: validateFirst_def pushSingleFile_def singleCandidate_def)
next
  case (Cons ef rest)
  obtain r d where v: "validateSingleFile fs p ef dbg = (r, d)"
    by (cases "validateSingleFile fs p ef dbg")
  then have r: "fst (validateSingleFile fs p ef []) = r"
    using validateSingleFile_fst [of fs p ef dbg] by simp
  show ?thesis
  proof (cases r)
    case None
    with Cons v r show ?thesis
      by (simp add: validateFirst_def pushSingleFile_def singleCandidate_def)
  next
    case (Some cm)
    obtain c m where cm: "cm = (c, m)" by (cases cm)
    from v Some cm have "exists m" using validateSingleFile_exists by blast
    with Cons v r Some cm show ?thesis
      by (simp add: validateFirst_def pushSingleFile_def singleCandidate_def strip_def)
  qed
qed

lemma testSingleFile_strip:
  "map strip (fst (testSingleFile fs pjoin nm efs base st (cands, dbg))) =
     map strip cands
     @ (if isFile st then singleCandidate fs efs base base else [])
     @ (if isDirectory st then singleCandidate fs efs base (pjoin base nm) else [])"
proof -
  define a2 where "a2 =
    (if isFile st
     then pushSingleFile base cands (validateFirst fs base efs (dbg @ [CheckingSingleFile]))
     else (cands, dbg @ [CheckingSingleFile]))"
  have a2s: "map strip (fst a2) =
      map strip cands @ (if isFile st then singleCandidate fs efs base base else [])"
    by (simp add: a2_def pushSingleFile_strip)
  have ts: "testSingleFile fs pjoin nm efs base st (cands, dbg) =
      (if isDirectory st then
         (if existsSync fs (pjoin base nm)
          then pushSingleFile base (fst a2)
                 (validateFirst fs (pjoin base nm) efs (snd a2 @ [CheckingForFileAt (pjoin base nm)]))
          else (fst a2, snd a2 @ [CheckingForFileAt (pjoin base nm), FileNotFound]))
       else a2)"
    by (simp add: testSingleFile_def a2_def Let_def split: prod.splits)
  have missing: "\<not> existsSync fs (pjoin base nm) \<Longrightarrow> singleCandidate fs efs base (pjoin base nm) = []"
    by (cases efs)
       (simp_all add: singleCandidate_def existsSync_def validateSingleFile_missing
          split: option.splits)
  show ?thesis
    unfolding ts using a2s missing by (simp add: pushSingleFile_strip)
qed

lemma multiCandidate_missing: "fs rt = None \<Longrightarrow> multiCandidate fs pjoin efs base rt = []"
  by (simp add: multiCandidate_def validateMulti_missing)

lemma multiCandidate_not_dir:
  "fs rt = Some st \<Longrightarrow> \<not> isDirectory st \<Longrightarrow> multiCandidate fs pjoin efs base rt = []"
  by (simp add: multiCandidate_def validateMulti_not_dir)

lemma multiCandidate_result:
  assumes "validateMultiFileStructure fs pjoin rt efs dbg = Inr (Some r, d)"
  shows "multiCandidate fs pjoin efs base rt =
           (if confidence r > 0 then [r\<lparr>basePath := base\<rparr>] else [])"
proof -
  from validateMulti_Some_dir [OF assms] obtain st where st: "fs rt = Some st" "isDirectory st"
    by blast
  from validateMulti_dir [of fs rt st pjoin efs "[]"] st obtain d0 r0 where
    v0: "validateMultiFileStructure fs pjoin rt efs [] = Inr (Some r0, d0)" by blast
  from validateMulti_result [OF v0] validateMulti_result [OF assms] have "r0 = r" by simp
  with v0 show ?thesis by (simp add: multiCandidate_def)
qed

lemma multiCandidate_none:
  assumes "validateMultiFileStructure fs pjoin rt efs dbg = Inr (None, d)"
  shows "multiCandidate fs pjoin efs base rt = []"
proof (cases "fs rt")
  case None
  then show ?thesis by (rule multiCandidate_missing)
next
  case (Some st)
  show ?thesis
  proof (cases "isDirectory st")
    case True
    from validateMulti_dir [of fs rt st pjoin efs dbg] Some True assms show ?thesis by auto
  next
    case False
    with Some show ?thesis by (rule multiCandidate_not_dir)
  qed
qed

lemma validateMulti_debug_empty:
  assumes "validateMultiFileStructure fs pjoin rt efs dbg = Inr (Some r, d)"
  shows "debug r = []"
  by (subst validateMulti_result [OF assms]) simp

lemma testStructures_strip:
  "testStructures fs pjoin efs base pts (cands, dbg) = Inr (cands', dbg') \<Longrightarrow>
   map strip cands' =
     map strip cands @ concat (map (\<lambda>pt. multiCandidate fs pjoin efs base (fst pt)) pts)"
proof (induction pts arbitrary: cands dbg)
  case Nil
  then show ?case by simp
next
  case (Cons pt pts)
  obtain testPath description where pt: "pt = (testPath, description)" by (cases pt)
  obtain r dbg1 where v: "validateMultiFileStructure fs pjoin testPath efs
      (dbg @ [TestingMultiFile description testPath]) = Inr (r, dbg1)"
    using validateMulti_total by blast
  show ?case
  proof (cases r)
    case None
    with Cons.prems v pt have "testStructures fs pjoin efs base pts (cands, dbg1) = Inr (cands', dbg')"
      by simp
    from Cons.IH [OF this] multiCandidate_none [of fs pjoin testPath efs _ dbg1 base] v None pt
    show ?thesis by simp
  next
    case (Some res)
    from v Some have vs: "validateMultiFileStructure fs pjoin testPath efs
      (dbg @ [TestingMultiFile description testPath]) = Inr (Some res, dbg1)" by simp
    note mc = multiCandidate_result [OF vs, of base]
    show ?thesis
    proof (cases "confidence res > 0")
      case True
      let ?d2 = "dbg1 @ [FoundCandidate (confidence res)]"
      let ?c = "res\<lparr>basePath := base, debug := ?d2\<rparr>"
      from Cons.prems v pt Some True
      have "testStructures fs pjoin efs base pts (cands @ [?c], ?d2) = Inr (cands', dbg')"
        by (simp add: Let_def)
      from Cons.IH [OF this]
      have "map strip cands' = map strip (cands @ [?c])
          @ concat (map (\<lambda>pt. multiCandidate fs pjoin efs base (fst pt)) pts)" .
      moreover have "strip ?c = res\<lparr>basePath := base\<rparr>"
        using validateMulti_debug_empty [OF vs] by (simp add: strip_def)
      ultimately show ?thesis using mc True pt by simp
    next
      case False
      with Cons.prems v pt Some
      have "testStructures fs pjoin efs base pts (cands, dbg1) = Inr (cands', dbg')"
        by simp
      from Cons.IH [OF this] mc False pt show ?thesis by simp
    qed
  qed
qed

lemma testBasePath_strip:
  assumes "testBasePath fs pjoin nm isSingle efs i base (cands, dbg) = Inr (cands', dbg')"
  shows "map strip cands' = map strip cands @ candidatesFor fs pjoin nm isSingle efs base"
proof (cases "fs base")
  case None
  with assms show ?thesis by (auto simp add: testBasePath_def existsSync_def candidatesFor_def)
next
  case (Some st)
  let ?d2 = "dbg @ [TestingPath (i + 1) base, PathExists (isDirectory st) (isFile st)]"
  show ?thesis
  proof (cases isSingle)
    case True
    with Some assms have "cands' = fst (testSingleFile fs pjoin nm efs base st (cands, ?d2))"
      by (auto simp add: testBasePath_def existsSync_def statSync_def)
    then show ?thesis using Some True by (simp add: testSingleFile_strip candidatesFor_def)
  next
    case False
    show ?thesis
    proof (cases "isDirectory st")
      case dir: True
      with Some False assms have "testStructures fs pjoin efs base
          [(pjoin base nm, ''with torrent name folder''), (base, ''direct in base path'')]
          (cands, ?d2) = Inr (cands', dbg')"
        by (simp add: testBasePath_def existsSync_def statSync_def Let_def)
      from testStructures_strip [OF this] Some False dir show ?thesis
        by (simp add: candidatesFor_def)
    next
      case nodir: False
      with Some False assms show ?thesis
        by (auto simp add: testBasePath_def existsSync_def statSync_def candidatesFor_def)
    qed
  qed
qed

lemma testPaths_strip:
  "testPaths fs pjoin nm isSingle efs paths i (cands, dbg) = Inr (cands', dbg') \<Longrightarrow>
   map strip cands' =
     map strip cands @ concat (map (candidatesFor fs pjoin nm isSingle efs) paths)"
proof (induction paths arbitrary: i cands dbg)
  case Nil
  then show ?case by simp
next
  case (Cons base rest)
  from testBasePath_validations [of fs pjoin nm isSingle efs i base cands dbg]
  obtain c1 d1 where b: "testBasePath fs pjoin nm isSingle efs i base (cands, dbg) = Inr (c1, d1)"
    by blast
  with Cons.prems have "testPaths fs pjoin nm isSingle efs rest (Suc i) (c1, d1) = Inr (cands', dbg')"
    by simp
  from Cons.IH [OF this] testBasePath_strip [OF b] show ?case by simp
qed

lemma findCorrectTorrentPath_selects:
  "\<exists>cands d.
     testPaths fs pjoin (name (info td)) (files (info td) = None) (getExpectedFiles td) paths 0
       ([], initialDebug (name (info td)) (files (info td) = None) (getExpectedFiles td)
              (length paths)) = Inr (cands, d) \<and>
     map strip cands =
       concat (map (candidatesFor fs pjoin (name (info td)) (files (info td) = None)
                      (getExpectedFiles td)) paths) \<and>
     findCorrectTorrentPath fs pjoin td paths = reduce better cands"
proof -
  let ?nm = "name (info td)"
  let ?single = "files (info td) = None"
  let ?efs = "getExpectedFiles td"
  let ?dbg = "initialDebug ?nm ?single ?efs (length paths)"
  have s: "(case files (info td) of None \<Rightarrow> True | Some fls \<Rightarrow> False) = ?single"
    by (cases "files (info td)") simp_all
  obtain cands d where t: "testPaths fs pjoin ?nm ?single ?efs paths 0 ([], ?dbg) = Inr (cands, d)"
    using testPaths_total by blast
  then have "findCorrectTorrentPath fs pjoin td paths = reduce better cands"
    by (simp add: findCorrectTorrentPath_def Let_def s)
  moreover from testPaths_strip [OF t]
  have "map strip cands = concat (map (candidatesFor fs pjoin ?nm ?single ?efs) paths)"
    by simp
  ultimately show ?thesis using t by blast
qed

subsection \<open>Concrete runs\<close>

text \<open>The validators and the search on the concrete inputs, evaluated with the confidences
  left as the expressions that compute them, and the values of the scores that occur.\<close>

lemmas run_defs = validateMultiFileStructure_def validateSingleFile_def checkFile_def
  existsSync_def statSync_def isDirectory_def isFile_def exFs_def exJoin_def Let_def

lemma run_six:
  "validateMultiFileStructure exFs exJoin ''/d'' exSix [] =
     Inr (Some \<lparr>basePath = ''/d'', confidence = multiFileConfidence 6 1 1,
                 matches = map (evidence exFs exJoin ''/d'') exSix,
                 totalFiles = 6, existingFiles = 1, debug = []\<rparr>,
          [ValidatingMultiFile ''/d'', CheckingFirst 6 6,
           CheckingFile ''f1'' ''/d/f1'', FileDoesNotExist,
           CheckingFile ''f2'' ''/d/f2'', FileDoesNotExist,
           CheckingFile ''f3'' ''/d/f3'', FileDoesNotExist,
           CheckingFile ''f4'' ''/d/f4'', FileDoesNotExist,
           CheckingFile ''f5'' ''/d/f5'', FileDoesNotExist, ResultsMsg 1 6 1,
           CalculatedConfidence (multiFileConfidence 6 1 1) (existenceRatio 1 6)
             (perfectMatchRatio 1 1)])"
  by (simp add: run_defs exSix_def evidence_def eval_nat_numeral)

lemma run_partial:
  "validateSingleFile exFs ''/f'' \<lparr>path_ef = ''movie'', size_ef = 1000\<rparr> [] =
     (Some (singleFileConfidence 400 1000,
        \<lparr>expectedPath = ''movie'', actualPath = ''/f'', exists = True,
          expectedSize = 1000, actualSize = 400, sizeMatch = False\<rparr>),
      [ValidatingSingleFile ''/f'', FileExistsSizes 1000 400,
       IncompleteFile (double (400 / 1000)) (singleFileConfidence 400 1000)])"
  by (simp add: run_defs singleFileConfidence_def)

lemma run_present:
  "validateMultiFileStructure exFs exJoin ''/d'' (getExpectedFiles exMulti) [] =
     Inr (Some \<lparr>basePath = ''/d'', confidence = multiFileConfidence 1 1 1,
                 matches = [\<lparr>expectedPath = ''a'', actualPath = ''/d/a'', exists = True,
                             expectedSize = 10, actualSize = 10, sizeMatch = True\<rparr>],
                 totalFiles = 1, existingFiles = 1, debug = []\<rparr>,
          [ValidatingMultiFile ''/d'', CheckingFirst 1 1, CheckingFile ''a'' ''/d/a'',
           FileExistsMatch 10 10 True, ResultsMsg 1 1 1,
           CalculatedConfidence (multiFileConfidence 1 1 1) (existenceRatio 1 1)
             (perfectMatchRatio 1 1)])"
  by (simp add: run_defs getExpectedFiles_def exMulti_def)

lemma run_absent:
  "validateMultiFileStructure exFs exJoin ''/e'' (getExpectedFiles exMulti) [] =
     Inr (Some \<lparr>basePath = ''/e'', confidence = 0,
                 matches = [\<lparr>expectedPath = ''a'', actualPath = ''/e/a'', exists = False,
                             expectedSize = 10, actualSize = 0, sizeMatch = False\<rparr>],
                 totalFiles = 1, existingFiles = 0, debug = []\<rparr>,
          [ValidatingMultiFile ''/e'', CheckingFirst 1 1, CheckingFile ''a'' ''/e/a'',
           FileDoesNotExist, ResultsMsg 0 1 0,
           CalculatedConfidence 0 (existenceRatio 0 1) (perfectMatchRatio 0 0)])"
  by (simp add: run_defs getExpectedFiles_def exMulti_def multiFileConfidence_zero)

lemma run_wrong_size:
  "validateMultiFileStructure exFs exJoin ''/d'' [\<lparr>path_ef = ''a'', size_ef = 11\<rparr>] [] =
     Inr (Some \<lparr>basePath = ''/d'', confidence = multiFileConfidence 1 1 0,
                 matches = [\<lparr>expectedPath = ''a'', actualPath = ''/d/a'', exists = True,
                             expectedSize = 11, actualSize = 10, sizeMatch = False\<rparr>],
                 totalFiles = 1, existingFiles = 1, debug = []\<rparr>,
          [ValidatingMultiFile ''/d'', CheckingFirst 1 1, CheckingFile ''a'' ''/d/a'',
           FileExistsMatch 11 10 False, ResultsMsg 1 1 0,
           CalculatedConfidence (multiFileConfidence 1 1 0) (existenceRatio 1 1)
             (perfectMatchRatio 0 1)])"
  by (simp add: run_defs)

lemma ratio_one: "existenceRatio 1 1 = 1" "perfectMatchRatio 1 1 = 1" "perfectMatchRatio 0 1 = 0"
  by (simp_all add: existenceRatio_def perfectMatchRatio_def double_consts)

lemma score_consts:
  "double (double (7 / 10)) = double (7 / 10)"
  "double (double (7 / 10) + double (3 / 10)) = 1"
  "double (double (7 / 10) + 0) = double (7 / 10)"
  "double (double (7 / 10) + double (1 / 10)) = 7205759403792793 / 9007199254740992"
  "double (8 / 10) < 1"
  "double (5 / 10) < 1"
  "double (6 / 10) \<le> 7205759403792793 / 9007199254740992"
  by code_simp+

lemma score_all_present: "multiFileConfidence 1 1 1 = double (11 / 10)"
proof -
  have c1: "double (double (1 * double (7 / 10)) + double (1 * double (3 / 10))) = 1"
    by (simp only: mult_1 score_consts single_consts)
  show ?thesis
    unfolding multiFileConfidence_def ratio_one Let_def c1
    using score_consts(5,6) double_sum_consts(3,4) by (simp add: max_def)
qed

lemma score_wrong_size: "multiFileConfidence 1 1 0 = 7205759403792793 / 9007199254740992"
proof -
  have c1: "double (double (1 * double (7 / 10)) + double (0 * double (3 / 10))) = double (7 / 10)"
    by (simp only: mult_1 mult_zero_left double_consts score_consts)
  show ?thesis
    unfolding multiFileConfidence_def ratio_one Let_def c1
    using score_consts(5,6,7) by (simp add: max_def score_consts(4))
qed

lemma score_all_present_pos: "0 < multiFileConfidence 1 1 1"
  unfolding score_all_present using double_sum_consts(5) by simp



lemma find_all_present:
  "map_sum id confidence (findCorrectTorrentPath exFs exJoin exMulti [''/d'']) =
     Inr (multiFileConfidence 1 1 1)"
  using score_all_present_pos
  by (simp add: findCorrectTorrentPath_def getExpectedFiles_def exMulti_def initialDebug_def
       testBasePath_def run_defs better_def)

lemma run_exact:
  "validateSingleFile exFs ''/d/movie'' \<lparr>path_ef = ''movie'', size_ef = 1000\<rparr> [] =
     (Some (1,
        \<lparr>expectedPath = ''movie'', actualPath = ''/d/movie'', exists = True,
          expectedSize = 1000, actualSize = 1000, sizeMatch = True\<rparr>),
      [ValidatingSingleFile ''/d/movie'', FileExistsSizes 1000 1000, PerfectSizeMatch 1])"
  by (simp add: run_defs)

lemma run_exact_again:
  "validateSingleFile exFs ''/h/movie'' \<lparr>path_ef = ''movie'', size_ef = 1000\<rparr> [] =
     (Some (1,
        \<lparr>expectedPath = ''movie'', actualPath = ''/h/movie'', exists = True,
          expectedSize = 1000, actualSize = 1000, sizeMatch = True\<rparr>),
      [ValidatingSingleFile ''/h/movie'', FileExistsSizes 1000 1000, PerfectSizeMatch 1])"
  by (simp add: run_defs)

lemma expected_single: "getExpectedFiles exSingle = [\<lparr>path_ef = ''movie'', size_ef = 1000\<rparr>]"
  by (simp add: getExpectedFiles_def exSingle_def)

lemma expected_multi: "getExpectedFiles exMulti = [\<lparr>path_ef = ''a'', size_ef = 10\<rparr>]"
  by (simp add: getExpectedFiles_def exMulti_def)



lemma cands_single_file:
  "candidatesFor exFs exJoin ''movie'' True (getExpectedFiles exSingle) ''/f'' =
     [\<lparr>basePath = ''/f'', confidence = singleFileConfidence 400 1000,
       matches = [\<lparr>expectedPath = ''movie'', actualPath = ''/f'', exists = True,
                   expectedSize = 1000, actualSize = 400, sizeMatch = False\<rparr>],
       totalFiles = 1, existingFiles = 1, debug = []\<rparr>]"
proof -
  have f: "exFs ''/f'' = Some \<lparr>ftype = RegularFile, size_st = 400\<rparr>" by (simp add: exFs_def)
  show ?thesis
    by (simp add: candidatesFor_def f isFile_def isDirectory_def singleCandidate_def
          expected_single run_partial)
qed

lemma cands_single_dir:
  "candidatesFor exFs exJoin ''movie'' True (getExpectedFiles exSingle) ''/d'' =
     [\<lparr>basePath = ''/d'', confidence = 1,
       matches = [\<lparr>expectedPath = ''movie'', actualPath = ''/d/movie'', exists = True,
                   expectedSize = 1000, actualSize = 1000, sizeMatch = True\<rparr>],
       totalFiles = 1, existingFiles = 1, debug = []\<rparr>]"
proof -
  have d: "exFs ''/d'' = Some \<lparr>ftype = Directory, size_st = 4096\<rparr>" by (simp add: exFs_def)
  have j: "exJoin ''/d'' ''movie'' = ''/d/movie''" by (simp add: exJoin_def)
  show ?thesis
    by (simp add: candidatesFor_def d isFile_def isDirectory_def singleCandidate_def
          expected_single j run_exact)
qed

lemma cands_single_dir_again:
  "candidatesFor exFs exJoin ''movie'' True (getExpectedFiles exSingle) ''/h'' =
     [\<lparr>basePath = ''/h'', confidence = 1,
       matches = [\<lparr>expectedPath = ''movie'', actualPath = ''/h/movie'', exists = True,
                   expectedSize = 1000, actualSize = 1000, sizeMatch = True\<rparr>],
       totalFiles = 1, existingFiles = 1, debug = []\<rparr>]"
proof -
  have d: "exFs ''/h'' = Some \<lparr>ftype = Directory, size_st = 4096\<rparr>" by (simp add: exFs_def)
  have j: "exJoin ''/h'' ''movie'' = ''/h/movie''" by (simp add: exJoin_def)
  show ?thesis
    by (simp add: candidatesFor_def d isFile_def isDirectory_def singleCandidate_def
          expected_single j run_exact_again)
qed

lemma score_partial_below_one: "singleFileConfidence 400 1000 < 1"
proof -
  from singleFileConfidence_partial [of 400 1000]
  have "singleFileConfidence 400 1000 \<le> double (8 / 10)" by simp
  with score_consts(5) show ?thesis by simp
qed

section \<open>The claims\<close>

subsection \<open>C1: the range of the confidence\<close>

text \<open>Claim C1 states that every confidence the scorer produces lies in \<open>[0, 1]\<close>. The
  program has no clamp: for the multi-file torrent \<open>T\<close>, whose one file is present under
  \<open>/d\<close> with the expected size, the selected result has the confidence \<open>0.7 + 0.3 + 0.1\<close>,
  which in double arithmetic is the double \<open>1.1\<close>.\<close>

theorem confidence_above_one:
  "map_sum id confidence (findCorrectTorrentPath exFs exJoin exMulti [''/d'']) =
     Inr (double (11 / 10))
   \<and> double (11 / 10) = 2476979795053773 / 2251799813685248
   \<and> \<not> (double (11 / 10) \<le> 1)"
proof -
  have v: "double (11 / 10) = 2476979795053773 / 2251799813685248" by code_simp
  then have "\<not> (double (11 / 10) \<le> 1)" by simp
  with v find_all_present score_all_present show ?thesis by simp
qed

text \<open>Claim C1, amended: every confidence lies in \<open>[0, 1.1]\<close>, where \<open>1.1\<close> is the double of
  that name. A single-file result has a confidence in \<open>[0.2, 1]\<close>; a multi-file result has
  a confidence in \<open>[0, 1.1]\<close>, and at most \<open>1\<close> unless the existence ratio is above \<open>0.8\<close> (the
  bonus); the result the selector returns has a confidence in \<open>(0, 1.1]\<close>.\<close>

theorem confidence_range:
  "(validateSingleFile fs p ef dbg = (Some (c, m), d) \<longrightarrow> 2 / 10 \<le> c \<and> c \<le> 1) \<and>
   (validateMultiFileStructure fs pjoin base es dbg = Inr (Some r, d') \<longrightarrow>
      0 \<le> confidence r \<and> confidence r \<le> double (11 / 10) \<and>
      (existenceRatio (existingFiles r) (totalFiles r) \<le> double (8 / 10) \<longrightarrow>
         confidence r \<le> 1)) \<and>
   (findCorrectTorrentPath fs pjoin td paths = Inr best \<longrightarrow>
      0 < confidence best \<and> confidence best \<le> double (11 / 10))"
proof (intro conjI impI)
  assume "validateSingleFile fs p ef dbg = (Some (c, m), d)"
  then show "2 / 10 \<le> c" and "c \<le> 1"
    using validateSingleFile_conf by blast+
next
  assume v: "validateMultiFileStructure fs pjoin base es dbg = Inr (Some r, d')"
  then show "0 \<le> confidence r" and "confidence r \<le> double (11 / 10)"
    using validateMulti_conf by blast+
  assume er: "existenceRatio (existingFiles r) (totalFiles r) \<le> double (8 / 10)"
  have ex: "existingFiles r = length (filter (readable fs pjoin base) es)"
    and tot: "totalFiles r = length es"
    and conf: "confidence r = multiFileConfidence (length es)
                  (length (filter (readable fs pjoin base) es))
                  (length (filter (perfect fs pjoin base) es))"
    by (subst validateMulti_result [OF v], simp)+
  from er have "\<not> existenceRatio (length (filter (readable fs pjoin base) es)) (length es)
      > double (8 / 10)"
    unfolding ex tot by simp
  from multiFileConfidence_no_bonus [OF perfect_le_readable readable_le_length this]
  show "confidence r \<le> 1" unfolding conf .
next
  assume "findCorrectTorrentPath fs pjoin td paths = Inr best"
  then show "0 < confidence best" and "confidence best \<le> double (11 / 10)"
    using findCorrectTorrentPath_conf [of fs pjoin td paths best] by (simp_all add: inRange_def)
qed

theorem confidence_range_witness:
  "validateSingleFile exFs ''/f'' \<lparr>path_ef = ''movie'', size_ef = 1000\<rparr> [] =
     (Some (singleFileConfidence 400 1000,
        \<lparr>expectedPath = ''movie'', actualPath = ''/f'', exists = True,
          expectedSize = 1000, actualSize = 400, sizeMatch = False\<rparr>),
      [ValidatingSingleFile ''/f'', FileExistsSizes 1000 400,
       IncompleteFile (double (400 / 1000)) (singleFileConfidence 400 1000)])
   \<and> 2 / 10 \<le> singleFileConfidence 400 1000 \<and> singleFileConfidence 400 1000 \<le> 1
   \<and> validateMultiFileStructure exFs exJoin ''/d'' exSix [] =
     Inr (Some \<lparr>basePath = ''/d'', confidence = multiFileConfidence 6 1 1,
                 matches = map (evidence exFs exJoin ''/d'') exSix,
                 totalFiles = 6, existingFiles = 1, debug = []\<rparr>,
          [ValidatingMultiFile ''/d'', CheckingFirst 6 6,
           CheckingFile ''f1'' ''/d/f1'', FileDoesNotExist,
           CheckingFile ''f2'' ''/d/f2'', FileDoesNotExist,
           CheckingFile ''f3'' ''/d/f3'', FileDoesNotExist,
           CheckingFile ''f4'' ''/d/f4'', FileDoesNotExist,
           CheckingFile ''f5'' ''/d/f5'', FileDoesNotExist, ResultsMsg 1 6 1,
           CalculatedConfidence (multiFileConfidence 6 1 1) (existenceRatio 1 6)
             (perfectMatchRatio 1 1)])
   \<and> existenceRatio 1 6 \<le> double (8 / 10) \<and> multiFileConfidence 6 1 1 \<le> 1
   \<and> \<not> isl (findCorrectTorrentPath exFs exJoin exMulti [''/d''])
   \<and> 0 < confidence (projr (findCorrectTorrentPath exFs exJoin exMulti [''/d'']))
   \<and> confidence (projr (findCorrectTorrentPath exFs exJoin exMulti [''/d''])) \<le> double (11 / 10)"
proof -
  note h1 = run_partial
  note h2 = run_six
  have h3: "existenceRatio 1 6 \<le> double (8 / 10)" by code_simp
  from find_all_present have h4: "\<not> isl (findCorrectTorrentPath exFs exJoin exMulti [''/d''])"
    by (cases "findCorrectTorrentPath exFs exJoin exMulti [''/d'']") simp_all
  then have h5: "findCorrectTorrentPath exFs exJoin exMulti [''/d''] =
      Inr (projr (findCorrectTorrentPath exFs exJoin exMulti [''/d'']))"
    by simp
  note inst = confidence_range [where fs = exFs and pjoin = exJoin and p = "''/f''"
      and ef = "\<lparr>path_ef = ''movie'', size_ef = 1000\<rparr>" and dbg = "[]" and base = "''/d''"
      and es = exSix and td = exMulti and paths = "[''/d'']"]
  from inst [THEN conjunct1, rule_format, OF h1]
  have c1: "2 / 10 \<le> singleFileConfidence 400 1000 \<and> singleFileConfidence 400 1000 \<le> 1" .
  from inst [THEN conjunct2, THEN conjunct1, rule_format, OF h2]
  have c2: "multiFileConfidence 6 1 1 \<le> 1" using h3 by simp
  from inst [THEN conjunct2, THEN conjunct2, rule_format, OF h5]
  have c3: "0 < confidence (projr (findCorrectTorrentPath exFs exJoin exMulti [''/d'']))
    \<and> confidence (projr (findCorrectTorrentPath exFs exJoin exMulti [''/d''])) \<le> double (11 / 10)" .
  from h1 h2 h3 h4 c1 c2 c3 show ?thesis by blast
qed

subsection \<open>C2: an empty candidate list\<close>

text \<open>Claim C2 states that the selector returns an explicit no-match outcome when no
  candidate was collected, and never raises. The program reduces the candidate array
  without an initial value: for the multi-file torrent \<open>T\<close> and the two existing directories
  \<open>/e\<close> and \<open>/g\<close>, neither of which holds a file of the torrent, no candidate is collected
  and \<open>findCorrectTorrentPath\<close> throws a \<open>TypeError\<close>.\<close>

theorem no_candidate_throws:
  "findCorrectTorrentPath exFs exJoin exMulti [''/e'', ''/g''] = Inl TypeError"
  by (simp add: findCorrectTorrentPath_def getExpectedFiles_def exMulti_def initialDebug_def
       testBasePath_def run_defs better_def multiFileConfidence_zero)

subsection \<open>C3: the multi-file score\<close>

text \<open>Claim C3: in a result of the multi-file validator with \<open>existingFiles > 0\<close> the
  confidence is \<open>existenceRatio * 0.7 + perfectRatio * 0.3\<close>, where \<open>perfectRatio\<close> is the
  number of perfect entries over \<open>existingFiles\<close>, plus \<open>0.1\<close> when \<open>existenceRatio > 0.8\<close>,
  then raised to at least \<open>0.6\<close> when \<open>existenceRatio > 0.5\<close>; every literal is a double and
  every operation is rounded to a double, as the program computes them. A result with
  \<open>existingFiles = 0\<close> has confidence \<open>0\<close>, and testing its root adds no candidate.\<close>

theorem multi_file_confidence:
  assumes "validateMultiFileStructure fs pjoin base es dbg = Inr (Some r, dbg')"
  shows "(0 < existingFiles r \<longrightarrow>
            confidence r =
              (let eRatio = double (of_nat (existingFiles r) / of_nat (totalFiles r));
                   pRatio = double (of_nat (length (filter (perfect fs pjoin base) es))
                              / of_nat (existingFiles r));
                   c1 = double (double (eRatio * double (7 / 10))
                          + double (pRatio * double (3 / 10)));
                   c2 = (if eRatio > double (8 / 10) then double (c1 + double (1 / 10)) else c1)
               in if eRatio > double (5 / 10) then max c2 (double (6 / 10)) else c2)) \<and>
         (existingFiles r = 0 \<longrightarrow>
            confidence r = 0 \<and>
            map_sum id fst (testStructures fs pjoin es b [(base, descr)] (cands, dbg0)) = Inr cands)"
proof -
  note r = validateMulti_result [OF assms]
  from validateMulti_Some_dir [OF assms] obtain st where st: "fs base = Some st" "isDirectory st"
    by blast
  have ex: "existingFiles r = length (filter (readable fs pjoin base) es)"
    and tot: "totalFiles r = length es"
    and conf: "confidence r = multiFileConfidence (length es)
                  (length (filter (readable fs pjoin base) es))
                  (length (filter (perfect fs pjoin base) es))"
    by (subst r, simp)+
  have pos: "0 < existingFiles r \<longrightarrow>
            confidence r =
              (let eRatio = double (of_nat (existingFiles r) / of_nat (totalFiles r));
                   pRatio = double (of_nat (length (filter (perfect fs pjoin base) es))
                              / of_nat (existingFiles r));
                   c1 = double (double (eRatio * double (7 / 10))
                          + double (pRatio * double (3 / 10)));
                   c2 = (if eRatio > double (8 / 10) then double (c1 + double (1 / 10)) else c1)
               in if eRatio > double (5 / 10) then max c2 (double (6 / 10)) else c2)"
    unfolding conf ex tot multiFileConfidence_def existenceRatio_def perfectMatchRatio_def
    by (simp add: Let_def)
  have zero: "existingFiles r = 0 \<longrightarrow>
            confidence r = 0 \<and>
            map_sum id fst (testStructures fs pjoin es b [(base, descr)] (cands, dbg0)) = Inr cands"
  proof
    assume z: "existingFiles r = 0"
    with ex have z': "length (filter (readable fs pjoin base) es) = 0" by simp
    have "confidence r = 0" unfolding conf z' by (rule multiFileConfidence_zero)
    with testStructures_excluded [OF st z'] show "confidence r = 0 \<and>
            map_sum id fst (testStructures fs pjoin es b [(base, descr)] (cands, dbg0)) = Inr cands"
      by simp
  qed
  from pos zero show ?thesis by simp
qed

text \<open>The file of \<open>T\<close> present with the expected size scores the double \<open>1.1\<close>; present
  with another size it scores \<open>0.7 + 0.1\<close>, which is the double \<open>0.7999999999999999\<close>, one
  below the double \<open>0.8\<close>; absent it scores \<open>0\<close> and yields no candidate.\<close>

theorem multi_file_confidence_witness:
  "validateMultiFileStructure exFs exJoin ''/d'' (getExpectedFiles exMulti) [] =
     Inr (Some \<lparr>basePath = ''/d'', confidence = multiFileConfidence 1 1 1,
                 matches = [\<lparr>expectedPath = ''a'', actualPath = ''/d/a'', exists = True,
                             expectedSize = 10, actualSize = 10, sizeMatch = True\<rparr>],
                 totalFiles = 1, existingFiles = 1, debug = []\<rparr>,
          [ValidatingMultiFile ''/d'', CheckingFirst 1 1, CheckingFile ''a'' ''/d/a'',
           FileExistsMatch 10 10 True, ResultsMsg 1 1 1,
           CalculatedConfidence (multiFileConfidence 1 1 1) (existenceRatio 1 1)
             (perfectMatchRatio 1 1)])
   \<and> multiFileConfidence 1 1 1 = double (11 / 10)
   \<and> multiFileConfidence 1 1 1 =
       max (double (double (double (double (1 / 1) * double (7 / 10))
                              + double (double (1 / 1) * double (3 / 10)))
                    + double (1 / 10)))
           (double (6 / 10))
   \<and> validateMultiFileStructure exFs exJoin ''/d'' [\<lparr>path_ef = ''a'', size_ef = 11\<rparr>] [] =
     Inr (Some \<lparr>basePath = ''/d'', confidence = multiFileConfidence 1 1 0,
                 matches = [\<lparr>expectedPath = ''a'', actualPath = ''/d/a'', exists = True,
                             expectedSize = 11, actualSize = 10, sizeMatch = False\<rparr>],
                 totalFiles = 1, existingFiles = 1, debug = []\<rparr>,
          [ValidatingMultiFile ''/d'', CheckingFirst 1 1, CheckingFile ''a'' ''/d/a'',
           FileExistsMatch 11 10 False, ResultsMsg 1 1 0,
           CalculatedConfidence (multiFileConfidence 1 1 0) (existenceRatio 1 1)
             (perfectMatchRatio 0 1)])
   \<and> multiFileConfidence 1 1 0 = 7205759403792793 / 9007199254740992
   \<and> validateMultiFileStructure exFs exJoin ''/e'' (getExpectedFiles exMulti) [] =
     Inr (Some \<lparr>basePath = ''/e'', confidence = 0,
                 matches = [\<lparr>expectedPath = ''a'', actualPath = ''/e/a'', exists = False,
                             expectedSize = 10, actualSize = 0, sizeMatch = False\<rparr>],
                 totalFiles = 1, existingFiles = 0, debug = []\<rparr>,
          [ValidatingMultiFile ''/e'', CheckingFirst 1 1, CheckingFile ''a'' ''/e/a'',
           FileDoesNotExist, ResultsMsg 0 1 0,
           CalculatedConfidence 0 (existenceRatio 0 1) (perfectMatchRatio 0 0)])
   \<and> map_sum id fst
        (testStructures exFs exJoin (getExpectedFiles exMulti) ''/e''
           [(''/e'', ''direct in base path'')] ([], [])) = Inr []"
proof -
  have p: "length (filter (perfect exFs exJoin ''/d'') (getExpectedFiles exMulti)) = 1"
    by code_simp
  have gt: "double (1 / 1) > double (8 / 10)" "double (1 / 1) > double (5 / 10)"
    using score_consts(5,6) by (simp_all add: double_consts)
  from multi_file_confidence [OF run_present] p gt
  have c1: "multiFileConfidence 1 1 1 =
       max (double (double (double (double (1 / 1) * double (7 / 10))
                              + double (double (1 / 1) * double (3 / 10)))
                    + double (1 / 10)))
           (double (6 / 10))"
    by (simp add: Let_def)
  from multi_file_confidence [OF run_absent, of "''/e''" "''direct in base path''" "[]" "[]"]
  have c2: "map_sum id fst
        (testStructures exFs exJoin (getExpectedFiles exMulti) ''/e''
           [(''/e'', ''direct in base path'')] ([], [])) = Inr []"
    by simp
  from run_present run_wrong_size run_absent score_all_present score_wrong_size c1 c2
  show ?thesis by blast
qed

subsection \<open>C4: the single-file score\<close>





subsection \<open>C5: the selector\<close>

text \<open>Claim C5, in two parts. First, on any non-empty candidate array the reduction
  \<open>candidates.reduce((best, current) => current.confidence > best.confidence ? current :
  best)\<close> returns an element of greatest confidence, and every element before it has a
  strictly smaller confidence: it is the first of the greatest. Second, the search itself.
  Let \<open>found\<close> be the candidates in evaluation order: the candidates of the first base
  path, then those of the second, and so on, those of one base path in the order of its
  hypotheses (\<open>candidatesFor\<close>). The \<open>candidates\<close> array the loop over the base paths builds
  is \<open>found\<close>, up to the copy of the log each candidate carries. If it is not empty,
  \<open>findCorrectTorrentPath\<close> returns its element at a position \<open>k\<close> such that no element has
  a greater confidence and every element before position \<open>k\<close> has a strictly smaller one.\<close>

theorem selector_first_maximum:
  "(cs \<noteq> [] \<longrightarrow>
      (\<exists>k < length cs.
         reduce better cs = Inr (cs ! k) \<and>
         (\<forall>j < length cs. confidence (cs ! j) \<le> confidence (cs ! k)) \<and>
         (\<forall>j < k. confidence (cs ! j) < confidence (cs ! k)))) \<and>
   (found = concat (map (candidatesFor fs pjoin (name (info td)) (files (info td) = None)
                           (getExpectedFiles td)) paths) \<and>
    found \<noteq> [] \<longrightarrow>
      (\<exists>candidates lg k.
         testPaths fs pjoin (name (info td)) (files (info td) = None) (getExpectedFiles td)
           paths 0
           ([], initialDebug (name (info td)) (files (info td) = None) (getExpectedFiles td)
                  (length paths)) = Inr (candidates, lg) \<and>
         map strip candidates = found \<and>
         k < length candidates \<and>
         findCorrectTorrentPath fs pjoin td paths = Inr (candidates ! k) \<and>
         (\<forall>j < length candidates. confidence (candidates ! j) \<le> confidence (candidates ! k)) \<and>
         (\<forall>j < k. confidence (candidates ! j) < confidence (candidates ! k))))"
proof (intro conjI impI)
  assume "cs \<noteq> []"
  from reduce_better_first_max [OF this]
  show "\<exists>k < length cs.
         reduce better cs = Inr (cs ! k) \<and>
         (\<forall>j < length cs. confidence (cs ! j) \<le> confidence (cs ! k)) \<and>
         (\<forall>j < k. confidence (cs ! j) < confidence (cs ! k))"
    by (auto simp add: firstMaxAt_def)
next
  assume a: "found = concat (map (candidatesFor fs pjoin (name (info td)) (files (info td) = None)
                           (getExpectedFiles td)) paths) \<and> found \<noteq> []"
  from findCorrectTorrentPath_selects [of fs pjoin td paths] a
  obtain candidates lg where
    t: "testPaths fs pjoin (name (info td)) (files (info td) = None) (getExpectedFiles td)
           paths 0
           ([], initialDebug (name (info td)) (files (info td) = None) (getExpectedFiles td)
                  (length paths)) = Inr (candidates, lg)"
    and m: "map strip candidates = found"
    and f: "findCorrectTorrentPath fs pjoin td paths = reduce better candidates"
    by auto
  from m a have "candidates \<noteq> []" by auto
  from reduce_better_first_max [OF this] obtain k where
    k: "firstMaxAt candidates k" and r: "reduce better candidates = Inr (candidates ! k)"
    by blast
  from k have "k < length candidates"
    "\<forall>j < length candidates. confidence (candidates ! j) \<le> confidence (candidates ! k)"
    "\<forall>j < k. confidence (candidates ! j) < confidence (candidates ! k)"
    by (simp_all add: firstMaxAt_def)
  with t m f r show "\<exists>candidates lg k.
         testPaths fs pjoin (name (info td)) (files (info td) = None) (getExpectedFiles td)
           paths 0
           ([], initialDebug (name (info td)) (files (info td) = None) (getExpectedFiles td)
                  (length paths)) = Inr (candidates, lg) \<and>
         map strip candidates = found \<and>
         k < length candidates \<and>
         findCorrectTorrentPath fs pjoin td paths = Inr (candidates ! k) \<and>
         (\<forall>j < length candidates. confidence (candidates ! j) \<le> confidence (candidates ! k)) \<and>
         (\<forall>j < k. confidence (candidates ! j) < confidence (candidates ! k))"
    by (intro exI [of _ candidates] exI [of _ lg] exI [of _ k]) simp
qed

text \<open>Four candidates of confidences \<open>0.65\<close>, \<open>1\<close>, \<open>0.2\<close> and \<open>1\<close>: the second is returned. The
  single-file torrent \<open>movie\<close> searched in \<open>/f\<close>, \<open>/d\<close> and \<open>/h\<close>: \<open>/f\<close> is a partial file, \<open>/d\<close>
  and \<open>/h\<close> both hold the file with the expected size, and \<open>/d\<close>, met first, is returned.\<close>

theorem selector_first_maximum_witness:
  "exCands \<noteq> [] \<and> map_sum id basePath (reduce better exCands) = Inr ''/p2''
   \<and> concat (map (candidatesFor exFs exJoin (name (info exSingle)) (files (info exSingle) = None)
                    (getExpectedFiles exSingle)) [''/f'', ''/d'', ''/h'']) \<noteq> []
   \<and> map basePath
       (concat (map (candidatesFor exFs exJoin (name (info exSingle)) (files (info exSingle) = None)
                    (getExpectedFiles exSingle)) [''/f'', ''/d'', ''/h''])) = [''/f'', ''/d'', ''/h'']
   \<and> map confidence
       (concat (map (candidatesFor exFs exJoin (name (info exSingle)) (files (info exSingle) = None)
                    (getExpectedFiles exSingle)) [''/f'', ''/d'', ''/h''])) =
       [singleFileConfidence 400 1000, 1, 1]
   \<and> singleFileConfidence 400 1000 < 1
   \<and> map_sum id basePath
       (findCorrectTorrentPath exFs exJoin exSingle [''/f'', ''/d'', ''/h'']) = Inr ''/d''"
proof -
  have ne: "exCands \<noteq> []" by (simp add: exCands_def)
  from selector_first_maximum [where cs = exCands, THEN conjunct1, rule_format, OF ne]
  obtain k where k: "k < length exCands"
    and r: "reduce better exCands = Inr (exCands ! k)"
    and mx: "\<forall>j < length exCands. confidence (exCands ! j) \<le> confidence (exCands ! k)"
    and fm: "\<forall>j < k. confidence (exCands ! j) < confidence (exCands ! k)"
    by blast
  from k have "k = 0 \<or> k = 1 \<or> k = 2 \<or> k = 3" by (auto simp add: exCands_def)
  moreover from mx [rule_format, of 1]
  have "confidence (exCands ! 1) \<le> confidence (exCands ! k)"
    by (simp add: exCands_def)
  moreover from fm [rule_format, of 1]
  have "1 < k \<longrightarrow> confidence (exCands ! 1) < confidence (exCands ! k)"
    by simp
  ultimately have "k = 1" by (auto simp add: exCands_def exCand_def)
  with r ne have p1: "map_sum id basePath (reduce better exCands) = Inr ''/p2''"
    by (simp add: exCands_def exCand_def)
  let ?found = "concat (map (candidatesFor exFs exJoin (name (info exSingle))
                    (files (info exSingle) = None) (getExpectedFiles exSingle))
                  [''/f'', ''/d'', ''/h''])"
  let ?c = "\<lambda>b p a c. \<lparr>basePath = b, confidence = c,
       matches = [\<lparr>expectedPath = ''movie'', actualPath = p, exists = True,
                   expectedSize = 1000, actualSize = a, sizeMatch = (a = 1000)\<rparr>],
       totalFiles = 1, existingFiles = 1, debug = []\<rparr>"
  have nm: "name (info exSingle) = ''movie''" "(files (info exSingle) = None) = True"
    by (simp_all add: exSingle_def)
  have fd: "?found = [?c ''/f'' ''/f'' 400 (singleFileConfidence 400 1000),
                      ?c ''/d'' ''/d/movie'' 1000 1, ?c ''/h'' ''/h/movie'' 1000 1]"
    unfolding nm by (simp add: cands_single_file cands_single_dir cands_single_dir_again)
  have fne: "?found \<noteq> []" unfolding fd by simp
  have fb: "map basePath ?found = [''/f'', ''/d'', ''/h'']" unfolding fd by simp
  have fc: "map confidence ?found = [singleFileConfidence 400 1000, 1, 1]" unfolding fd by simp
  from selector_first_maximum [where found = ?found and fs = exFs and pjoin = exJoin
      and td = exSingle and paths = "[''/f'', ''/d'', ''/h'']", THEN conjunct2, rule_format,
      OF conjI [OF refl fne]]
  obtain cands n where ms: "map strip cands = ?found"
    and n: "n < length cands"
    and f: "findCorrectTorrentPath exFs exJoin exSingle [''/f'', ''/d'', ''/h''] = Inr (cands ! n)"
    and mx2: "\<forall>j < length cands. confidence (cands ! j) \<le> confidence (cands ! n)"
    and fm2: "\<forall>j < n. confidence (cands ! j) < confidence (cands ! n)"
    by blast
  from arg_cong [OF ms, of length] have len: "length cands = 3" unfolding fd by simp
  have el: "strip (cands ! j) = ?found ! j" if "j < 3" for j
    using that len nth_map [of j cands strip] ms by simp
  have cf: "confidence (cands ! j) = confidence (?found ! j)" if "j < 3" for j
    using el [OF that] strip_simps(1) [of "cands ! j"] by simp
  have bp: "basePath (cands ! j) = basePath (?found ! j)" if "j < 3" for j
    using el [OF that] strip_simps(2) [of "cands ! j"] by simp
  have c0: "confidence (cands ! 0) = singleFileConfidence 400 1000"
    using cf [of 0] unfolding fd by simp
  have c1: "confidence (cands ! 1) = 1" using cf [of 1] unfolding fd by simp
  have c2: "confidence (cands ! 2) = 1" using cf [of 2] unfolding fd by simp
  from n len have nc: "n = 0 \<or> n = 1 \<or> n = 2" by auto
  from mx2 [rule_format, of 1] len c1 have m1: "1 \<le> confidence (cands ! n)" by simp
  from fm2 [rule_format, of 1] c1 have m2: "1 < n \<longrightarrow> 1 < confidence (cands ! n)" by simp
  from nc m1 m2 c0 c2 score_partial_below_one have "n = 1" by auto
  moreover have "basePath (cands ! 1) = ''/d''" using bp [of 1] unfolding fd by simp
  ultimately have p2: "map_sum id basePath
       (findCorrectTorrentPath exFs exJoin exSingle [''/f'', ''/d'', ''/h'']) = Inr ''/d''"
    using f by simp
  from ne p1 fne fb fc score_partial_below_one p2 show ?thesis by blast
qed


subsection \<open>C6: the scan visits every entry\<close>

text \<open>Claim C6: the multi-file validator visits the whole list of expected files,
  whatever its length and whatever is logged. Its \<open>matches\<close> hold one record per entry, in
  the order of the entries; \<open>existingFiles\<close> is the number of entries of the whole list
  whose \<open>statSync\<close> succeeds, and the \<open>perfectMatches\<close> counter of the loop is the number of
  entries whose size on disk is the expected one. The score is computed from these
  counts.\<close>

theorem full_scan:
  assumes "validateMultiFileStructure fs pjoin base es dbg = Inr (Some r, dbg')"
  shows "length (matches r) = length es \<and>
         map expectedPath (matches r) = map path_ef es \<and>
         totalFiles r = length es \<and>
         existingFiles r = length (filter (readable fs pjoin base) es) \<and>
         confidence r =
           multiFileConfidence (length es)
             (length (filter (readable fs pjoin base) es))
             (length (filter (perfect fs pjoin base) es)) \<and>
         (let s = checkFiles fs pjoin base es 0
                    \<lparr>matches_l = [], existingFiles_l = 0, perfectMatches_l = 0, debug_l = lg\<rparr>
          in matches_l s = matches r \<and>
             existingFiles_l s = existingFiles r \<and>
             perfectMatches_l s = length (filter (perfect fs pjoin base) es))"
proof -
  note r = validateMulti_result [OF assms]
  have m: "matches r = map (evidence fs pjoin base) es"
    and ex: "existingFiles r = length (filter (readable fs pjoin base) es)"
    and tot: "totalFiles r = length es"
    and conf: "confidence r = multiFileConfidence (length es)
                  (length (filter (readable fs pjoin base) es))
                  (length (filter (perfect fs pjoin base) es))"
    by (subst r, simp)+
  show ?thesis
    unfolding m ex tot conf Let_def
    by (simp add: evidence_expectedPath checkFiles_matches checkFiles_existing
          checkFiles_perfect)
qed

theorem full_scan_witness:
  "validateMultiFileStructure exFs exJoin ''/d'' exSix [] =
     Inr (Some \<lparr>basePath = ''/d'', confidence = multiFileConfidence 6 1 1,
                 matches = map (evidence exFs exJoin ''/d'') exSix,
                 totalFiles = 6, existingFiles = 1, debug = []\<rparr>,
          [ValidatingMultiFile ''/d'', CheckingFirst 6 6,
           CheckingFile ''f1'' ''/d/f1'', FileDoesNotExist,
           CheckingFile ''f2'' ''/d/f2'', FileDoesNotExist,
           CheckingFile ''f3'' ''/d/f3'', FileDoesNotExist,
           CheckingFile ''f4'' ''/d/f4'', FileDoesNotExist,
           CheckingFile ''f5'' ''/d/f5'', FileDoesNotExist, ResultsMsg 1 6 1,
           CalculatedConfidence (multiFileConfidence 6 1 1) (existenceRatio 1 6)
             (perfectMatchRatio 1 1)])
   \<and> length (filter (readable exFs exJoin ''/d'') exSix) = 1
   \<and> perfectMatches_l
        (checkFiles exFs exJoin ''/d'' exSix 0
           \<lparr>matches_l = [], existingFiles_l = 0, perfectMatches_l = 0, debug_l = []\<rparr>) =
      length (filter (perfect exFs exJoin ''/d'') exSix)
   \<and> length (filter (perfect exFs exJoin ''/d'') exSix) = 1"
proof -
  have h: "validateMultiFileStructure exFs exJoin ''/d'' exSix [] =
     Inr (Some \<lparr>basePath = ''/d'', confidence = multiFileConfidence 6 1 1,
                 matches = map (evidence exFs exJoin ''/d'') exSix,
                 totalFiles = 6, existingFiles = 1, debug = []\<rparr>,
          [ValidatingMultiFile ''/d'', CheckingFirst 6 6,
           CheckingFile ''f1'' ''/d/f1'', FileDoesNotExist,
           CheckingFile ''f2'' ''/d/f2'', FileDoesNotExist,
           CheckingFile ''f3'' ''/d/f3'', FileDoesNotExist,
           CheckingFile ''f4'' ''/d/f4'', FileDoesNotExist,
           CheckingFile ''f5'' ''/d/f5'', FileDoesNotExist, ResultsMsg 1 6 1,
           CalculatedConfidence (multiFileConfidence 6 1 1) (existenceRatio 1 6)
             (perfectMatchRatio 1 1)])"
    by (rule run_six)
  have p: "length (filter (perfect exFs exJoin ''/d'') exSix) = 1"
    by (simp add: perfect_def exFs_def exJoin_def exSix_def)
  from full_scan [OF h, of "[]"]
  have "length (filter (readable exFs exJoin ''/d'') exSix) = 1"
    and "perfectMatches_l
        (checkFiles exFs exJoin ''/d'' exSix 0
           \<lparr>matches_l = [], existingFiles_l = 0, perfectMatches_l = 0, debug_l = []\<rparr>) =
      length (filter (perfect exFs exJoin ''/d'') exSix)"
    by (simp_all add: Let_def)
  with h p show ?thesis by blast
qed

subsection \<open>C7: a failed stat is evidence\<close>

text \<open>Claim C7: the multi-file validator never throws. In its result the record of
  entry \<open>i\<close> has \<open>exists = false\<close>, \<open>actualSize = 0\<close> and \<open>sizeMatch = false\<close> where \<open>statSync\<close>
  fails on the joined path, and \<open>exists = true\<close>, the size found and \<open>sizeMatch\<close> equal to
  the comparison of that size with the expected one where it succeeds.\<close>

theorem stat_failures_absorbed:
  "(\<exists>res out. validateMultiFileStructure fs pjoin base es dbg = Inr (res, out)) \<and>
   (validateMultiFileStructure fs pjoin base es dbg = Inr (Some r, dbg') \<and> i < length es \<longrightarrow>
      length (matches r) = length es \<and>
      expectedPath (matches r ! i) = path_ef (es ! i) \<and>
      actualPath (matches r ! i) = pjoin base (path_ef (es ! i)) \<and>
      expectedSize (matches r ! i) = size_ef (es ! i) \<and>
      (case statSync fs (pjoin base (path_ef (es ! i))) of
         Inl err \<Rightarrow>
           \<not> exists (matches r ! i) \<and> actualSize (matches r ! i) = 0 \<and>
           \<not> sizeMatch (matches r ! i)
       | Inr st \<Rightarrow>
           exists (matches r ! i) \<and> actualSize (matches r ! i) = int (size_st st) \<and>
           sizeMatch (matches r ! i) = (int (size_st st) = size_ef (es ! i))))"
proof (intro conjI impI)
  show "\<exists>res out. validateMultiFileStructure fs pjoin base es dbg = Inr (res, out)"
    by (rule validateMulti_total)
next
  assume a: "validateMultiFileStructure fs pjoin base es dbg = Inr (Some r, dbg') \<and> i < length es"
  then have v: "validateMultiFileStructure fs pjoin base es dbg = Inr (Some r, dbg')"
    and i: "i < length es" by simp_all
  have m: "matches r = map (evidence fs pjoin base) es"
    by (subst validateMulti_result [OF v], simp)
  from i have n: "matches r ! i = evidence fs pjoin base (es ! i)"
    unfolding m by simp
  show "length (matches r) = length es" unfolding m by simp
  show "expectedPath (matches r ! i) = path_ef (es ! i)"
    unfolding n by (rule evidence_expectedPath)
  show "actualPath (matches r ! i) = pjoin base (path_ef (es ! i))"
    unfolding n by (cases "fs (pjoin base (path_ef (es ! i)))") (simp_all add: evidence_def)
  show "expectedSize (matches r ! i) = size_ef (es ! i)"
    unfolding n by (cases "fs (pjoin base (path_ef (es ! i)))") (simp_all add: evidence_def)
  show "case statSync fs (pjoin base (path_ef (es ! i))) of
         Inl err \<Rightarrow>
           \<not> exists (matches r ! i) \<and> actualSize (matches r ! i) = 0 \<and>
           \<not> sizeMatch (matches r ! i)
       | Inr st \<Rightarrow>
           exists (matches r ! i) \<and> actualSize (matches r ! i) = int (size_st st) \<and>
           sizeMatch (matches r ! i) = (int (size_st st) = size_ef (es ! i))"
    unfolding n using evidence_fields [of fs pjoin base "es ! i"]
    by (cases "fs (pjoin base (path_ef (es ! i)))") (simp_all add: statSync_def)
qed

theorem stat_failures_absorbed_witness:
  "validateMultiFileStructure exFs exJoin ''/d'' exSix [] =
     Inr (Some \<lparr>basePath = ''/d'', confidence = multiFileConfidence 6 1 1,
                 matches = map (evidence exFs exJoin ''/d'') exSix,
                 totalFiles = 6, existingFiles = 1, debug = []\<rparr>,
          [ValidatingMultiFile ''/d'', CheckingFirst 6 6,
           CheckingFile ''f1'' ''/d/f1'', FileDoesNotExist,
           CheckingFile ''f2'' ''/d/f2'', FileDoesNotExist,
           CheckingFile ''f3'' ''/d/f3'', FileDoesNotExist,
           CheckingFile ''f4'' ''/d/f4'', FileDoesNotExist,
           CheckingFile ''f5'' ''/d/f5'', FileDoesNotExist, ResultsMsg 1 6 1,
           CalculatedConfidence (multiFileConfidence 6 1 1) (existenceRatio 1 6)
             (perfectMatchRatio 1 1)])
   \<and> (0 :: nat) < length exSix \<and> (5 :: nat) < length exSix
   \<and> statSync exFs (exJoin ''/d'' (path_ef (exSix ! 0))) = Inl StatError
   \<and> \<not> exists (map (evidence exFs exJoin ''/d'') exSix ! 0)
   \<and> actualSize (map (evidence exFs exJoin ''/d'') exSix ! 0) = 0
   \<and> \<not> sizeMatch (map (evidence exFs exJoin ''/d'') exSix ! 0)
   \<and> statSync exFs (exJoin ''/d'' (path_ef (exSix ! 5))) = Inr \<lparr>ftype = RegularFile, size_st = 6\<rparr>
   \<and> exists (map (evidence exFs exJoin ''/d'') exSix ! 5)
   \<and> actualSize (map (evidence exFs exJoin ''/d'') exSix ! 5) = 6
   \<and> sizeMatch (map (evidence exFs exJoin ''/d'') exSix ! 5)"
proof -
  have h: "validateMultiFileStructure exFs exJoin ''/d'' exSix [] =
     Inr (Some \<lparr>basePath = ''/d'', confidence = multiFileConfidence 6 1 1,
                 matches = map (evidence exFs exJoin ''/d'') exSix,
                 totalFiles = 6, existingFiles = 1, debug = []\<rparr>,
          [ValidatingMultiFile ''/d'', CheckingFirst 6 6,
           CheckingFile ''f1'' ''/d/f1'', FileDoesNotExist,
           CheckingFile ''f2'' ''/d/f2'', FileDoesNotExist,
           CheckingFile ''f3'' ''/d/f3'', FileDoesNotExist,
           CheckingFile ''f4'' ''/d/f4'', FileDoesNotExist,
           CheckingFile ''f5'' ''/d/f5'', FileDoesNotExist, ResultsMsg 1 6 1,
           CalculatedConfidence (multiFileConfidence 6 1 1) (existenceRatio 1 6)
             (perfectMatchRatio 1 1)])"
    by (rule run_six)
  have l0: "(0 :: nat) < length exSix" and l5: "(5 :: nat) < length exSix"
    by (simp_all add: exSix_def)
  have s0: "statSync exFs (exJoin ''/d'' (path_ef (exSix ! 0))) = Inl StatError"
    by (simp add: statSync_def exFs_def exJoin_def exSix_def)
  have s5: "statSync exFs (exJoin ''/d'' (path_ef (exSix ! 5))) =
      Inr \<lparr>ftype = RegularFile, size_st = 6\<rparr>"
    by (simp add: statSync_def exFs_def exJoin_def exSix_def)
  have e5: "size_ef (exSix ! 5) = 6" by (simp add: exSix_def)
  from stat_failures_absorbed [where fs = exFs and pjoin = exJoin and base = "''/d''"
      and es = exSix and dbg = "[]" and i = 0, THEN conjunct2, rule_format, OF conjI, OF h l0]
  have c0: "\<not> exists (map (evidence exFs exJoin ''/d'') exSix ! 0)
    \<and> actualSize (map (evidence exFs exJoin ''/d'') exSix ! 0) = 0
    \<and> \<not> sizeMatch (map (evidence exFs exJoin ''/d'') exSix ! 0)"
    unfolding s0 by simp
  from stat_failures_absorbed [where fs = exFs and pjoin = exJoin and base = "''/d''"
      and es = exSix and dbg = "[]" and i = 5, THEN conjunct2, rule_format, OF conjI, OF h l5]
  have c5: "exists (map (evidence exFs exJoin ''/d'') exSix ! 5)
    \<and> actualSize (map (evidence exFs exJoin ''/d'') exSix ! 5) = 6
    \<and> sizeMatch (map (evidence exFs exJoin ''/d'') exSix ! 5)"
    unfolding s5 e5 by simp
  from h l0 l5 s0 s5 c0 c5 show ?thesis by blast
qed

subsection \<open>C8: the hypotheses tested for a base path\<close>




subsection \<open>C9: the manifest\<close>

text \<open>Claim C9: for a descriptor with a \<open>files\<close> list, \<open>getExpectedFiles\<close> returns one entry
  per file, in the order of the list, whose path is the segments joined with \<open>/\<close> and whose
  size is the file's \<open>length\<close>. For a descriptor without \<open>files\<close> it returns exactly one
  entry, whose path is \<open>info.name\<close> and whose size is \<open>info.length\<close>, or \<open>0\<close> where
  \<open>info.length\<close> is absent.\<close>

theorem expected_files:
  "getExpectedFiles td =
     (case files (info td) of
        Some fls \<Rightarrow>
          map (\<lambda>f. \<lparr>path_ef = array_join (path_tf f) ''/'', size_ef = length_tf f\<rparr>) fls
      | None \<Rightarrow>
          [\<lparr>path_ef = name (info td),
            size_ef = (case length_info (info td) of None \<Rightarrow> 0 | Some n \<Rightarrow> n)\<rparr>])"
  by (cases "files (info td)"; cases "length_info (info td)")
     (simp_all add: getExpectedFiles_def pushFiles_map)

theorem expected_files_witness:
  "getExpectedFiles
     \<lparr>info = \<lparr>name = ''T'',
                files = Some [\<lparr>length_tf = 7, path_tf = [''dir'', ''sub'', ''file.txt'']\<rparr>,
                              \<lparr>length_tf = 10, path_tf = [''a'']\<rparr>],
                length_info = None\<rparr>\<rparr> =
     [\<lparr>path_ef = ''dir/sub/file.txt'', size_ef = 7\<rparr>, \<lparr>path_ef = ''a'', size_ef = 10\<rparr>]
   \<and> getExpectedFiles \<lparr>info = \<lparr>name = ''movie'', files = None, length_info = None\<rparr>\<rparr> =
     [\<lparr>path_ef = ''movie'', size_ef = 0\<rparr>]
   \<and> getExpectedFiles exSingle = [\<lparr>path_ef = ''movie'', size_ef = 1000\<rparr>]"
  using expected_files [of "\<lparr>info = \<lparr>name = ''T'',
                files = Some [\<lparr>length_tf = 7, path_tf = [''dir'', ''sub'', ''file.txt'']\<rparr>,
                              \<lparr>length_tf = 10, path_tf = [''a'']\<rparr>],
                length_info = None\<rparr>\<rparr>"]
    expected_files [of "\<lparr>info = \<lparr>name = ''movie'', files = None, length_info = None\<rparr>\<rparr>"]
    expected_files [of exSingle]
  by (simp add: exSingle_def)

subsection \<open>C10: the counts behind the ratios\<close>

text \<open>Claim C10: a record the validators produce with \<open>sizeMatch\<close> also has \<open>exists\<close>. After
  the scan \<open>perfectMatches \<le> existingFiles \<le> totalFiles\<close>; hence the perfect-match ratio
  lies in \<open>[0, 1]\<close>, and so does the existence ratio of a non-empty list of expected files
  (for the empty list JavaScript's \<open>0 / 0\<close> is \<open>NaN\<close>, which the scorer never reads).
  The counts of the scan are the ones in the validator's result.\<close>

theorem evidence_counts:
  "(let s = checkFiles fs pjoin base es 0
              \<lparr>matches_l = [], existingFiles_l = 0, perfectMatches_l = 0, debug_l = lg\<rparr>
    in list_all (\<lambda>m. sizeMatch m \<longrightarrow> exists m) (matches_l s) \<and>
       perfectMatches_l s \<le> existingFiles_l s \<and>
       existingFiles_l s \<le> length es \<and>
       0 \<le> perfectMatchRatio (perfectMatches_l s) (existingFiles_l s) \<and>
       perfectMatchRatio (perfectMatches_l s) (existingFiles_l s) \<le> 1 \<and>
       (es \<noteq> [] \<longrightarrow>
          0 \<le> existenceRatio (existingFiles_l s) (length es) \<and>
          existenceRatio (existingFiles_l s) (length es) \<le> 1) \<and>
       (validateMultiFileStructure fs pjoin base es dbg = Inr (Some r, dbg') \<longrightarrow>
          matches r = matches_l s \<and> existingFiles r = existingFiles_l s \<and>
          totalFiles r = length es)) \<and>
   (validateSingleFile fs p ef dbg = (Some (c, m), d) \<longrightarrow> exists m)"
proof -
  let ?s = "checkFiles fs pjoin base es 0
              \<lparr>matches_l = [], existingFiles_l = 0, perfectMatches_l = 0, debug_l = lg\<rparr>"
  let ?E = "length (filter (readable fs pjoin base) es)"
  let ?P = "length (filter (perfect fs pjoin base) es)"
  have ms: "matches_l ?s = map (evidence fs pjoin base) es"
    by (simp add: checkFiles_matches)
  have ex: "existingFiles_l ?s = ?E"
    by (simp add: checkFiles_existing)
  have pf: "perfectMatches_l ?s = ?P"
    by (simp add: checkFiles_perfect)
  have 1: "list_all (\<lambda>m. sizeMatch m \<longrightarrow> exists m) (matches_l ?s)"
    unfolding ms by (simp add: list_all_iff evidence_sizeMatch_exists)
  have 2: "perfectMatches_l ?s \<le> existingFiles_l ?s"
    unfolding ex pf by (rule perfect_le_readable)
  have 3: "existingFiles_l ?s \<le> length es"
    unfolding ex by (rule readable_le_length)
  have 4: "0 \<le> perfectMatchRatio (perfectMatches_l ?s) (existingFiles_l ?s) \<and>
       perfectMatchRatio (perfectMatches_l ?s) (existingFiles_l ?s) \<le> 1"
    using 2 by (rule perfectMatchRatio_bounds)
  have 5: "0 \<le> existenceRatio (existingFiles_l ?s) (length es) \<and>
          existenceRatio (existingFiles_l ?s) (length es) \<le> 1"
    using 3 by (rule existenceRatio_bounds)
  have 6: "validateMultiFileStructure fs pjoin base es dbg = Inr (Some r, dbg') \<longrightarrow>
          matches r = matches_l ?s \<and> existingFiles r = existingFiles_l ?s \<and>
          totalFiles r = length es"
  proof
    assume v: "validateMultiFileStructure fs pjoin base es dbg = Inr (Some r, dbg')"
    have "matches r = map (evidence fs pjoin base) es" and "existingFiles r = ?E"
      and "totalFiles r = length es"
      by (subst validateMulti_result [OF v], simp)+
    then show "matches r = matches_l ?s \<and> existingFiles r = existingFiles_l ?s \<and>
          totalFiles r = length es"
      unfolding ms ex by simp
  qed
  have 7: "validateSingleFile fs p ef dbg = (Some (c, m), d) \<longrightarrow> exists m"
  proof
    assume v: "validateSingleFile fs p ef dbg = (Some (c, m), d)"
    show "exists m"
    proof (cases "fs p")
      case None
      with v show ?thesis by (simp add: validateSingleFile_missing)
    next
      case (Some st)
      from validateSingleFile_present [of fs p st ef dbg] Some v show ?thesis by auto
    qed
  qed
  from 1 2 3 4 5 6 7 show ?thesis unfolding Let_def by blast
qed

theorem evidence_counts_witness:
  "exSix \<noteq> []
   \<and> validateMultiFileStructure exFs exJoin ''/d'' exSix [] =
     Inr (Some \<lparr>basePath = ''/d'', confidence = multiFileConfidence 6 1 1,
                 matches = map (evidence exFs exJoin ''/d'') exSix,
                 totalFiles = 6, existingFiles = 1, debug = []\<rparr>,
          [ValidatingMultiFile ''/d'', CheckingFirst 6 6,
           CheckingFile ''f1'' ''/d/f1'', FileDoesNotExist,
           CheckingFile ''f2'' ''/d/f2'', FileDoesNotExist,
           CheckingFile ''f3'' ''/d/f3'', FileDoesNotExist,
           CheckingFile ''f4'' ''/d/f4'', FileDoesNotExist,
           CheckingFile ''f5'' ''/d/f5'', FileDoesNotExist, ResultsMsg 1 6 1,
           CalculatedConfidence (multiFileConfidence 6 1 1) (existenceRatio 1 6)
             (perfectMatchRatio 1 1)])
   \<and> existingFiles_l
        (checkFiles exFs exJoin ''/d'' exSix 0
           \<lparr>matches_l = [], existingFiles_l = 0, perfectMatches_l = 0, debug_l = []\<rparr>) = 1
   \<and> perfectMatches_l
        (checkFiles exFs exJoin ''/d'' exSix 0
           \<lparr>matches_l = [], existingFiles_l = 0, perfectMatches_l = 0, debug_l = []\<rparr>) \<le> 1
   \<and> 0 \<le> existenceRatio 1 6 \<and> existenceRatio 1 6 \<le> 1
   \<and> validateSingleFile exFs ''/f'' \<lparr>path_ef = ''movie'', size_ef = 1000\<rparr> [] =
     (Some (singleFileConfidence 400 1000,
        \<lparr>expectedPath = ''movie'', actualPath = ''/f'', exists = True,
          expectedSize = 1000, actualSize = 400, sizeMatch = False\<rparr>),
      [ValidatingSingleFile ''/f'', FileExistsSizes 1000 400, IncompleteFile (double (400 / 1000))
         (singleFileConfidence 400 1000)])
   \<and> exists \<lparr>expectedPath = ''movie'', actualPath = ''/f'', exists = True,
          expectedSize = 1000, actualSize = 400, sizeMatch = False\<rparr>"
proof -
  let ?s = "checkFiles exFs exJoin ''/d'' exSix 0
           \<lparr>matches_l = [], existingFiles_l = 0, perfectMatches_l = 0, debug_l = []\<rparr>"
  let ?r = "\<lparr>basePath = ''/d'', confidence = multiFileConfidence 6 1 1,
             matches = map (evidence exFs exJoin ''/d'') exSix,
             totalFiles = 6, existingFiles = 1, debug = []\<rparr>"
  let ?out = "[ValidatingMultiFile ''/d'', CheckingFirst 6 6,
           CheckingFile ''f1'' ''/d/f1'', FileDoesNotExist,
           CheckingFile ''f2'' ''/d/f2'', FileDoesNotExist,
           CheckingFile ''f3'' ''/d/f3'', FileDoesNotExist,
           CheckingFile ''f4'' ''/d/f4'', FileDoesNotExist,
           CheckingFile ''f5'' ''/d/f5'', FileDoesNotExist, ResultsMsg 1 6 1,
           CalculatedConfidence (multiFileConfidence 6 1 1) (existenceRatio 1 6)
             (perfectMatchRatio 1 1)]"
  have ne: "exSix \<noteq> []" by (simp add: exSix_def)
  have len: "length exSix = 6" by (simp add: exSix_def)
  have h: "validateMultiFileStructure exFs exJoin ''/d'' exSix [] = Inr (Some ?r, ?out)"
    by (rule run_six)
  have h1: "validateSingleFile exFs ''/f'' \<lparr>path_ef = ''movie'', size_ef = 1000\<rparr> [] =
     (Some (singleFileConfidence 400 1000,
        \<lparr>expectedPath = ''movie'', actualPath = ''/f'', exists = True,
          expectedSize = 1000, actualSize = 400, sizeMatch = False\<rparr>),
      [ValidatingSingleFile ''/f'', FileExistsSizes 1000 400, IncompleteFile (double (400 / 1000))
         (singleFileConfidence 400 1000)])"
    by (rule run_partial)
  note inst = evidence_counts [where fs = exFs and pjoin = exJoin and base = "''/d''"
      and es = exSix and lg = "[]" and dbg = "[]" and r = ?r and dbg' = ?out
      and p = "''/f''" and ef = "\<lparr>path_ef = ''movie'', size_ef = 1000\<rparr>", unfolded Let_def]
  from inst [THEN conjunct1] h have "existingFiles ?r = existingFiles_l ?s" by blast
  then have e: "existingFiles_l ?s = 1" by simp
  from inst [THEN conjunct1] have "perfectMatches_l ?s \<le> existingFiles_l ?s" by blast
  with e have p: "perfectMatches_l ?s \<le> 1" by simp
  from inst [THEN conjunct1] ne
  have "0 \<le> existenceRatio (existingFiles_l ?s) (length exSix) \<and>
        existenceRatio (existingFiles_l ?s) (length exSix) \<le> 1"
    by blast
  then have er: "0 \<le> existenceRatio 1 6 \<and> existenceRatio 1 6 \<le> 1"
    unfolding e len .
  from inst [THEN conjunct2, rule_format, OF h1]
  have x: "exists \<lparr>expectedPath = ''movie'', actualPath = ''/f'', exists = True,
          expectedSize = 1000, actualSize = 400, sizeMatch = False\<rparr>" .
  from ne h e p er h1 x show ?thesis by blast
qed

end
